theory Spec2Isabelle
  imports Complex_Main "HOL-Library.AList"
begin

section \<open>Shared data model (types.ts)\<close>

text \<open>
  Console output (the \<open>verbose\<close> traces and progress lines) does not influence any result
  and is left out throughout.
  JavaScript strings are sequences of UTF-16 code units; a \<^typ>\<open>string\<close> here is the
  list of those code units, so \<^const>\<open>length\<close> is \<open>.length\<close>. A \<open>Buffer\<close> is a list of
  bytes. A thrown \<open>Error\<close> is a value carrying its message. JavaScript numbers that count
  characters or configure sizes are integers here (fractional values and NaN are outside the
  model); embedding components and similarities are real numbers.
\<close>

type_synonym buffer = "nat list"

datatype error = Error string

datatype mval = MNum int | MStr string

type_synonym metadata = "(string \<times> mval) list"

record Chunk =
  ctext :: string
  cindex :: nat
  cmetadata :: metadata

record QRVideoStoreIndexEntry =
  chunkText_field :: string
  embedding :: "real list"
  frameNumber :: nat
  documentId :: string
  similarity :: "real option"
  metadata :: metadata

record SearchResult =
  rtext :: string
  rsimilarity :: real
  rframeNumber :: nat
  rdocumentId :: string
  rmetadata :: metadata

datatype ecl = L | M | Q | H

text \<open>The optional configuration passed by the caller, and the resolved one the encoder keeps.\<close>

record QRVideoStoreConfig =
  chunkSize_opt :: "int option"
  chunkOverlap_opt :: "int option"
  videoFps_opt :: "int option"
  qrErrorCorrectionLevel_opt :: "ecl option"
  videoResolution_opt :: "(int \<times> int) option"
  verbose_opt :: "bool option"

record Config =
  chunkSize :: int
  chunkOverlap :: int
  videoFps :: int
  qrErrorCorrectionLevel :: ecl
  videoResolution :: "int \<times> int"
  verbose :: bool

section \<open>External collaborators\<close>

text \<open>
  The file system as the code sees it through \<open>fs\<close>: a partial map from paths to nodes.
  Directory creation records the directory under its own path (ancestors are not tracked).
\<close>

datatype node = Dir | File buffer

type_synonym fs = "string \<Rightarrow> node option"

text \<open>
  What one run of the external video encoder on a frame directory does: it finishes and
  leaves the video at the output path, or it reports an error and leaves at the output path
  whatever it had written so far (nothing, or a partial file).
\<close>

datatype ffmpeg_outcome = Finished buffer | Failed string "buffer option"

text \<open>
  The calls the retriever makes to its collaborators, in program order.
\<close>

datatype call = Embed string | DbSearch "real list" int | Ffmpeg string nat | QrDecode buffer

text \<open>
  Everything the code calls but does not define: the clock and working directory, the QR
  library, the embedder, faults of file-system writes (the message thrown when writing or
  creating that path fails), the video tool in both directions, the vector database's
  \<open>search\<close> and the QR reader. The tool's command-line options are part of these functions.
\<close>

record Env =
  cwd :: string
  now :: nat
  qr_toBuffer :: "string \<Rightarrow> ecl \<Rightarrow> int \<Rightarrow> error + buffer"
  embed :: "string \<Rightarrow> error + real list"
  fs_fault :: "string \<Rightarrow> string option"
  ffmpeg_encode :: "string \<Rightarrow> string \<Rightarrow> ffmpeg_outcome"
  db_search :: "real list \<Rightarrow> int \<Rightarrow> error + QRVideoStoreIndexEntry list"
  ffmpeg_frame :: "node \<Rightarrow> nat \<Rightarrow> buffer option"
  qr_decode :: "buffer \<Rightarrow> string option"

text \<open>\<open>Number.prototype.toString\<close> on a non-negative integer, and \<open>padStart(5, '0')\<close>.\<close>

fun toString :: "nat \<Rightarrow> string" where
  "toString n =
     (if n < 10 then [''0123456789'' ! n]
      else toString (n div 10) @ [''0123456789'' ! (n mod 10)])"

declare toString.simps [simp del]

definition padStart5 :: "string \<Rightarrow> string" where
  "padStart5 s = replicate (5 - length s) (CHR ''0'') @ s"

text \<open>\<open>path.join\<close> of a directory and a file name, and \<open>path.dirname\<close>.\<close>

definition path_join :: "string \<Rightarrow> string \<Rightarrow> string" where
  "path_join d f = d @ ''/'' @ f"

definition path_dirname :: "string \<Rightarrow> string" where
  "path_dirname p =
     (if CHR ''/'' \<notin> set p then ''.''
      else (let d = rev (drop 1 (dropWhile (\<lambda>c. c \<noteq> CHR ''/'') (rev p)))
            in if d = [] then ''/'' else d))"

definition existsSync :: "fs \<Rightarrow> string \<Rightarrow> bool" where
  "existsSync fsys p = (fsys p \<noteq> None)"

text \<open>
  \<open>fs.promises.rm(p, {recursive: true, force: true})\<close>: \<open>p\<close> and everything below it. The
  removal itself is taken to succeed.
\<close>

definition is_below :: "string \<Rightarrow> string \<Rightarrow> bool" where
  "is_below p q = (take (length p + 1) q = p @ ''/'')"

definition rm_rf :: "fs \<Rightarrow> string \<Rightarrow> fs" where
  "rm_rf fsys p = (\<lambda>q. if q = p \<or> is_below p q then None else fsys q)"

section \<open>Encoder (encoder.ts)\<close>

subsection \<open>Constructor\<close>

text \<open>\<open>a ?? b\<close>: the default is taken only when the option is absent.\<close>

definition nullish :: "'a option \<Rightarrow> 'a \<Rightarrow> 'a" where
  "nullish v d = (case v of None \<Rightarrow> d | Some x \<Rightarrow> x)"

text \<open>
  The constructor stores its collaborators and resolves the defaults. It has no \<open>throw\<close>:
  every path returns an encoder. The result type has an error side only so that
  ``construction fails'' is expressible.
\<close>

definition new_QRVideoStoreEncoder :: "QRVideoStoreConfig \<Rightarrow> error + Config" where
  "new_QRVideoStoreEncoder config =
     Inr \<lparr>chunkSize = nullish (chunkSize_opt config) 500,
          chunkOverlap = nullish (chunkOverlap_opt config) 50,
          videoFps = nullish (videoFps_opt config) 1,
          qrErrorCorrectionLevel = nullish (qrErrorCorrectionLevel_opt config) M,
          videoResolution = nullish (videoResolution_opt config) (256, 256),
          verbose = nullish (verbose_opt config) False\<rparr>"

subsection \<open>chunkText\<close>

text \<open>
  \<open>String.prototype.substring(a, b)\<close>: both indices are clamped to \<open>[0, length]\<close> and
  swapped when the first exceeds the second.
\<close>

definition substring :: "string \<Rightarrow> int \<Rightarrow> int \<Rightarrow> string" where
  "substring s a b =
     (let n = int (length s);
          a' = max 0 (min a n);
          b' = max 0 (min b n);
          lo = min a' b';
          hi = max a' b'
      in take (nat (hi - lo)) (drop (nat lo) s))"

text \<open>
  The \<open>while (i < text.length)\<close> loop of \<open>chunkText\<close>, with the loop variable \<open>i\<close> and the
  array \<open>chunks\<close> as arguments. The loop need not terminate, so the result is an option:
  \<^const>\<open>None\<close> is the run that never returns.
\<close>

partial_function (option) chunkText_loop ::
  "Config \<Rightarrow> string \<Rightarrow> int \<Rightarrow> Chunk list \<Rightarrow> Chunk list option" where
  "chunkText_loop cfg text i chunks =
     (if i < int (length text) then
        (let end = min (i + chunkSize cfg) (int (length text));
             chunkText = substring text i end
         in chunkText_loop cfg text (i + (chunkSize cfg - chunkOverlap cfg))
              (chunks @ [\<lparr>ctext = chunkText, cindex = length chunks,
                   cmetadata = [(''startPosition'', MNum i), (''endPosition'', MNum end)]\<rparr>]))
      else Some chunks)"

declare chunkText_loop.simps [code]

definition chunkText :: "Config \<Rightarrow> string \<Rightarrow> Chunk list option" where
  "chunkText cfg text = chunkText_loop cfg text 0 []"

subsection \<open>generateQrCode, buildVideo, encodeVideo\<close>

definition generateQrCode :: "Env \<Rightarrow> Config \<Rightarrow> string \<Rightarrow> error + buffer" where
  "generateQrCode env cfg text =
     qr_toBuffer env text (qrErrorCorrectionLevel cfg) (fst (videoResolution cfg))"

text \<open>
  \<open>encodeVideo\<close> resolves on the tool's \<open>end\<close> event and rejects with
  \<open>FFmpeg error: \<dots>\<close> on its \<open>error\<close> event. It touches the output path only through
  the tool.
\<close>

definition encodeVideo :: "Env \<Rightarrow> string \<Rightarrow> string \<Rightarrow> fs \<Rightarrow> (error + unit) \<times> fs" where
  "encodeVideo env tempDir outputVideoPath fsys =
     (case ffmpeg_encode env (path_join tempDir ''frame_%05d.png'') outputVideoPath of
        Finished video \<Rightarrow> (Inr (), fsys(outputVideoPath \<mapsto> File video))
      | Failed msg partial \<Rightarrow>
          (Inl (Error (''FFmpeg error: '' @ msg)),
           (case partial of None \<Rightarrow> fsys | Some p \<Rightarrow> fsys(outputVideoPath \<mapsto> File p))))"

text \<open>The \<open>for\<close> loop writing \<open>frame_00000.png\<close>, \<open>frame_00001.png\<close>, \<dots>\<close>

fun writeFrames :: "Env \<Rightarrow> string \<Rightarrow> buffer list \<Rightarrow> nat \<Rightarrow> fs \<Rightarrow> (error + unit) \<times> fs" where
  "writeFrames env tempDir [] i fsys = (Inr (), fsys)"
| "writeFrames env tempDir (b # bs) i fsys =
     (let imagePath = path_join tempDir (''frame_'' @ padStart5 (toString i) @ ''.png'')
      in case fs_fault env imagePath of
           Some msg \<Rightarrow> (Inl (Error msg), fsys)
         | None \<Rightarrow> writeFrames env tempDir bs (Suc i) (fsys(imagePath \<mapsto> File b)))"

definition mkdirSync :: "Env \<Rightarrow> string \<Rightarrow> fs \<Rightarrow> (error + unit) \<times> fs" where
  "mkdirSync env p fsys =
     (case fs_fault env p of
        Some msg \<Rightarrow> (Inl (Error msg), fsys)
      | None \<Rightarrow> (Inr (), fsys(p \<mapsto> Dir)))"

text \<open>\<open>if (!fs.existsSync(p)) fs.mkdirSync(p, {recursive: true})\<close>.\<close>

definition ensure_dir :: "Env \<Rightarrow> string \<Rightarrow> fs \<Rightarrow> (error + unit) \<times> fs" where
  "ensure_dir env p fsys = (if \<not> existsSync fsys p then mkdirSync env p fsys else (Inr (), fsys))"

text \<open>The body of the \<open>try\<close> block of \<open>buildVideo\<close>.\<close>

definition buildVideo_try ::
  "Env \<Rightarrow> string \<Rightarrow> buffer list \<Rightarrow> string \<Rightarrow> fs \<Rightarrow> (error + unit) \<times> fs" where
  "buildVideo_try env tempDir qrCodeBuffers outputVideoPath fsys =
     (case ensure_dir env tempDir fsys of
        (Inl e, fs1) \<Rightarrow> (Inl e, fs1)
      | (Inr _, fs1) \<Rightarrow>
          (case writeFrames env tempDir qrCodeBuffers 0 fs1 of
             (Inl e, fs2) \<Rightarrow> (Inl e, fs2)
           | (Inr _, fs2) \<Rightarrow>
               (case ensure_dir env (path_dirname outputVideoPath) fs2 of
                  (Inl e, fs3) \<Rightarrow> (Inl e, fs3)
                | (Inr _, fs3) \<Rightarrow> encodeVideo env tempDir outputVideoPath fs3)))"

definition tempDir_of :: "Env \<Rightarrow> string" where
  "tempDir_of env = path_join (cwd env) (''temp_qr_frames_'' @ toString (now env))"

text \<open>\<open>buildVideo\<close>: the \<open>try\<close> block, then the \<open>finally\<close> block whatever the outcome.\<close>

definition buildVideo :: "Env \<Rightarrow> buffer list \<Rightarrow> string \<Rightarrow> fs \<Rightarrow> (error + unit) \<times> fs" where
  "buildVideo env qrCodeBuffers outputVideoPath fsys =
     (let tempDir = tempDir_of env;
          (r, fs1) = buildVideo_try env tempDir qrCodeBuffers outputVideoPath fsys
      in (r, if existsSync fs1 tempDir then rm_rf fs1 tempDir else fs1))"

subsection \<open>The in-memory adapter's upsert, and addDocument\<close>

definition upsert :: "QRVideoStoreIndexEntry list \<Rightarrow> QRVideoStoreIndexEntry list
    \<Rightarrow> QRVideoStoreIndexEntry list" where
  "upsert store entries = store @ entries"

text \<open>Object spread \<open>{...a, ...b}\<close>: the keys of \<open>b\<close> override those of \<open>a\<close>.\<close>

definition spread :: "metadata \<Rightarrow> metadata \<Rightarrow> metadata" where
  "spread a b = fold (\<lambda>(k, v). AList.update k v) b a"

text \<open>
  The \<open>for\<close> loop of \<open>addDocument\<close> over the chunks. \<open>Promise.all\<close> rejects when either
  promise does; when both do, the QR error is the one reported here.
\<close>

fun processChunks :: "Env \<Rightarrow> Config \<Rightarrow> string \<Rightarrow> metadata \<Rightarrow> Chunk list \<Rightarrow> buffer list
    \<Rightarrow> QRVideoStoreIndexEntry list \<Rightarrow> error + (buffer list \<times> QRVideoStoreIndexEntry list)" where
  "processChunks env cfg docId userMeta [] qrCodeBuffers indexEntries =
     Inr (qrCodeBuffers, indexEntries)"
| "processChunks env cfg docId userMeta (chunk # rest) qrCodeBuffers indexEntries =
     (case generateQrCode env cfg (ctext chunk) of
        Inl e \<Rightarrow> Inl e
      | Inr qrCodeBuffer \<Rightarrow>
          (case embed env (ctext chunk) of
             Inl e \<Rightarrow> Inl e
           | Inr emb \<Rightarrow>
               processChunks env cfg docId userMeta rest (qrCodeBuffers @ [qrCodeBuffer])
                 (indexEntries @
                    [\<lparr>chunkText_field = ctext chunk, embedding = emb, frameNumber = cindex chunk,
                      documentId = docId, similarity = None,
                      metadata = spread (cmetadata chunk) userMeta\<rparr>])))"

record World =
  files :: fs
  db_store :: "QRVideoStoreIndexEntry list"

text \<open>
  \<open>addDocument\<close> with the in-memory adapter as database. The outer option is \<^const>\<open>None\<close>
  when chunking never returns; otherwise the call's outcome and the world it leaves.
\<close>

definition addDocument :: "Env \<Rightarrow> Config \<Rightarrow> string \<Rightarrow> string \<Rightarrow> string \<Rightarrow> metadata \<Rightarrow> World
    \<Rightarrow> ((error + unit) \<times> World) option" where
  "addDocument env cfg docId documentText outputVideoPath userMeta w =
     (case chunkText cfg documentText of
        None \<Rightarrow> None
      | Some chunks \<Rightarrow>
          Some (case processChunks env cfg docId userMeta chunks [] [] of
                  Inl e \<Rightarrow> (Inl e, w)
                | Inr (qrCodeBuffers, indexEntries) \<Rightarrow>
                    (case buildVideo env qrCodeBuffers outputVideoPath (files w) of
                       (Inl e, fs') \<Rightarrow> (Inl e, w\<lparr>files := fs'\<rparr>)
                     | (Inr _, fs') \<Rightarrow>
                         (Inr (), \<lparr>files = fs', db_store = upsert (db_store w) indexEntries\<rparr>))))"

section \<open>In-memory adapter: search\<close>

text \<open>
  The accumulation loop of \<open>cosineSimilarity\<close> over the indices of \<open>a\<close>, carrying
  \<open>(dotProduct, magA, magB)\<close>.
\<close>

definition cosine_sums :: "real list \<Rightarrow> real list \<Rightarrow> real \<times> real \<times> real" where
  "cosine_sums a b =
     fold (\<lambda>i (dotProduct, magA, magB).
             (dotProduct + a ! i * b ! i, magA + a ! i * a ! i, magB + b ! i * b ! i))
          [0 ..< length a] (0, 0, 0)"

definition cosineSimilarity :: "real list \<Rightarrow> real list \<Rightarrow> error + real" where
  "cosineSimilarity a b =
     (if length a \<noteq> length b then Inl (Error ''Vectors must have same length'')
      else (let (dotProduct, magA, magB) = cosine_sums a b;
                magA = sqrt magA;
                magB = sqrt magB
            in if magA = 0 \<or> magB = 0 then Inr 0
               else Inr (dotProduct / (magA * magB))))"

text \<open>\<open>store.map(entry => \<dots>)\<close>: the first throwing call ends the map.\<close>

fun score_all :: "real list \<Rightarrow> QRVideoStoreIndexEntry list
    \<Rightarrow> error + QRVideoStoreIndexEntry list" where
  "score_all q [] = Inr []"
| "score_all q (entry # rest) =
     (case cosineSimilarity q (embedding entry) of
        Inl e \<Rightarrow> Inl e
      | Inr sim \<Rightarrow>
          (case score_all q rest of
             Inl e \<Rightarrow> Inl e
           | Inr scored \<Rightarrow> Inr (entry\<lparr>similarity := Some sim\<rparr> # scored)))"

text \<open>\<open>x.similarity || 0\<close>.\<close>

definition similarity_or_0 :: "QRVideoStoreIndexEntry \<Rightarrow> real" where
  "similarity_or_0 e = (case similarity e of None \<Rightarrow> 0 | Some x \<Rightarrow> x)"

text \<open>\<open>Array.prototype.slice(0, limit)\<close>: a negative end counts from the end of the array.\<close>

definition slice0 :: "'a list \<Rightarrow> int \<Rightarrow> 'a list" where
  "slice0 xs limit =
     (if limit < 0 then take (nat (int (length xs) + limit)) xs else take (nat limit) xs)"

text \<open>
  \<open>search\<close> of \<open>createInMemoryAdapter\<close>. The sort is stable and by descending similarity.
\<close>

definition search_mem :: "QRVideoStoreIndexEntry list \<Rightarrow> real list \<Rightarrow> int
    \<Rightarrow> error + QRVideoStoreIndexEntry list" where
  "search_mem store q limit =
     (if length store = 0 then Inr []
      else (case score_all q store of
              Inl e \<Rightarrow> Inl e
            | Inr results \<Rightarrow> Inr (slice0 (sort_key (\<lambda>e. - similarity_or_0 e) results) limit)))"

section \<open>Retriever\<close>

text \<open>
  The retriever's mutable state: the capacity, the frame cache (a JavaScript \<open>Map\<close>, which
  iterates in insertion order: an association list, oldest insertion first) and the log of
  the calls made to collaborators so far.
\<close>

record Retriever =
  maxCacheSize :: int
  frameCache :: "(string \<times> string) list"
  calls :: "call list"

definition new_QRVideoStoreRetriever :: "int option \<Rightarrow> Retriever" where
  "new_QRVideoStoreRetriever maxCacheSize_opt =
     \<lparr>maxCacheSize = nullish maxCacheSize_opt 50, frameCache = [], calls = []\<rparr>"

definition logged :: "call \<Rightarrow> Retriever \<Rightarrow> Retriever" where
  "logged c r = r\<lparr>calls := calls r @ [c]\<rparr>"

text \<open>Truthiness of a \<open>string | null | undefined\<close>: present and not the empty string.\<close>

definition truthy :: "string option \<Rightarrow> bool" where
  "truthy v = (case v of None \<Rightarrow> False | Some s \<Rightarrow> s \<noteq> [])"

definition retrieveChunks :: "Env \<Rightarrow> string \<Rightarrow> int \<Rightarrow> Retriever
    \<Rightarrow> (error + QRVideoStoreIndexEntry list) \<times> Retriever" where
  "retrieveChunks env query matchCount r =
     (let r1 = logged (Embed query) r
      in case embed env query of
           Inl e \<Rightarrow> (Inl e, r1)
         | Inr emb \<Rightarrow>
             (let r2 = logged (DbSearch emb matchCount) r1
              in case db_search env emb matchCount of
                   Inl e \<Rightarrow> (Inl e, r2)
                 | Inr results \<Rightarrow> (Inr results, r2)))"

text \<open>
  \<open>extractFrameAsBuffer\<close>: throws when the video is missing; otherwise runs the tool, and
  resolves to null on a tool error or an empty output.
\<close>

definition extractFrameAsBuffer :: "Env \<Rightarrow> fs \<Rightarrow> string \<Rightarrow> nat \<Rightarrow> Retriever
    \<Rightarrow> (error + buffer option) \<times> Retriever" where
  "extractFrameAsBuffer env fsys videoPath frameNo r =
     (case fsys videoPath of
        None \<Rightarrow> (Inl (Error (''Video file not found: '' @ videoPath)), r)
      | Some nd \<Rightarrow>
          (let r1 = logged (Ffmpeg videoPath frameNo) r
           in case ffmpeg_frame env nd frameNo of
                None \<Rightarrow> (Inr None, r1)
              | Some buf \<Rightarrow> (Inr (if length buf > 0 then Some buf else None), r1)))"

definition decodeQrCodeFromBuffer :: "Env \<Rightarrow> buffer \<Rightarrow> Retriever \<Rightarrow> string option \<times> Retriever" where
  "decodeQrCodeFromBuffer env imageBuffer r = (qr_decode env imageBuffer, logged (QrDecode imageBuffer) r)"

definition addToCache :: "string \<Rightarrow> string \<Rightarrow> Retriever \<Rightarrow> Retriever" where
  "addToCache key val r =
     (let c = frameCache r;
          c1 = (if int (length c) \<ge> maxCacheSize r then
                  (case c of
                     [] \<Rightarrow> c
                   | (firstKey, _) # _ \<Rightarrow> if firstKey \<noteq> [] then AList.delete firstKey c else c)
                else c)
      in r\<lparr>frameCache := AList.update key val c1\<rparr>)"

definition cacheKey_of :: "string \<Rightarrow> nat \<Rightarrow> string" where
  "cacheKey_of videoPath frameNo = videoPath @ '':'' @ toString frameNo"

definition mk_result :: "QRVideoStoreIndexEntry \<Rightarrow> string \<Rightarrow> SearchResult" where
  "mk_result chunk decodedText =
     \<lparr>rtext = decodedText, rsimilarity = similarity_or_0 chunk,
      rframeNumber = frameNumber chunk, rdocumentId = documentId chunk,
      rmetadata = metadata chunk\<rparr>"

text \<open>The \<open>for (const chunk of chunks)\<close> loop of \<open>search\<close>; \<open>continue\<close> is the recursive call
  with \<open>results\<close> unchanged.\<close>

fun search_loop :: "Env \<Rightarrow> fs \<Rightarrow> string \<Rightarrow> QRVideoStoreIndexEntry list \<Rightarrow> Retriever
    \<Rightarrow> SearchResult list \<Rightarrow> (error + SearchResult list) \<times> Retriever" where
  "search_loop env fsys videoPath [] r results = (Inr results, r)"
| "search_loop env fsys videoPath (chunk # rest) r results =
     (let cacheKey = cacheKey_of videoPath (frameNumber chunk);
          decodedText = map_of (frameCache r) cacheKey
      in if \<not> truthy decodedText then
           (case extractFrameAsBuffer env fsys videoPath (frameNumber chunk) r of
              (Inl e, r1) \<Rightarrow> (Inl e, r1)
            | (Inr None, r1) \<Rightarrow> search_loop env fsys videoPath rest r1 results
            | (Inr (Some frameBuffer), r1) \<Rightarrow>
                (case decodeQrCodeFromBuffer env frameBuffer r1 of
                   (decoded, r2) \<Rightarrow>
                     if \<not> truthy decoded then search_loop env fsys videoPath rest r2 results
                     else search_loop env fsys videoPath rest
                            (addToCache cacheKey (the decoded) r2)
                            (results @ [mk_result chunk (the decoded)])))
         else search_loop env fsys videoPath rest r
                (results @ [mk_result chunk (the decodedText)]))"

definition search :: "Env \<Rightarrow> fs \<Rightarrow> string \<Rightarrow> string \<Rightarrow> int option \<Rightarrow> Retriever
    \<Rightarrow> (error + SearchResult list) \<times> Retriever" where
  "search env fsys query videoPath matchCount r =
     (case retrieveChunks env query (nullish matchCount 5) r of
        (Inl e, r1) \<Rightarrow> (Inl e, r1)
      | (Inr chunks, r1) \<Rightarrow> search_loop env fsys videoPath chunks r1 [])"

definition getFrameByNumber :: "Env \<Rightarrow> fs \<Rightarrow> string \<Rightarrow> nat \<Rightarrow> Retriever
    \<Rightarrow> (error + string option) \<times> Retriever" where
  "getFrameByNumber env fsys videoPath frameNo r =
     (let cacheKey = cacheKey_of videoPath frameNo;
          cached = map_of (frameCache r) cacheKey
      in if truthy cached then (Inr cached, r)
         else (case extractFrameAsBuffer env fsys videoPath frameNo r of
                 (Inl e, r1) \<Rightarrow> (Inl e, r1)
               | (Inr None, r1) \<Rightarrow> (Inr None, r1)
               | (Inr (Some frameBuffer), r1) \<Rightarrow>
                   (case decodeQrCodeFromBuffer env frameBuffer r1 of
                      (decoded, r2) \<Rightarrow>
                        (Inr decoded,
                         if truthy decoded then addToCache cacheKey (the decoded) r2 else r2))))"


section \<open>The chunker as the specification words it\<close>

text \<open>
  The chunker as the specification words it, on character counts: starting at position \<open>i\<close>,
  emit the characters \<open>[i, min (i + sz) len)\<close> with the emission ordinal \<open>k\<close> as index,
  advance by the stride, stop when \<open>i \<ge> len\<close>. (A zero stride emits nothing here; the
  specification excludes it.)
\<close>

function sliding_window_from :: "nat \<Rightarrow> nat \<Rightarrow> string \<Rightarrow> nat \<Rightarrow> nat \<Rightarrow> Chunk list" where
  "sliding_window_from sz stride text i k =
     (if length text \<le> i \<or> stride = 0 then []
      else \<lparr>ctext = take (min (i + sz) (length text) - i) (drop i text), cindex = k,
             cmetadata = [(''startPosition'', MNum (int i)),
                          (''endPosition'', MNum (int (min (i + sz) (length text))))]\<rparr>
           # sliding_window_from sz stride text (i + stride) (Suc k))"
  by pat_completeness auto
termination
  by (relation "measure (\<lambda>(sz, stride, text, i, k). length text - i)") auto

declare sliding_window_from.simps [simp del]

definition sliding_window :: "nat \<Rightarrow> nat \<Rightarrow> string \<Rightarrow> Chunk list" where
  "sliding_window sz overlap text = sliding_window_from sz (sz - overlap) text 0 0"

text \<open>
  Reassembly as the specification words it: drop the last \<open>overlap\<close> characters of every
  chunk except the last, and concatenate.
\<close>

fun reassemble :: "nat \<Rightarrow> string list \<Rightarrow> string" where
  "reassemble overlap [] = []"
| "reassemble overlap [c] = c"
| "reassemble overlap (c # d # cs) = take (length c - overlap) c @ reassemble overlap (d # cs)"

text \<open>Reassembly by strides: keep the first \<open>stride\<close> characters of every chunk except the last.\<close>

fun reassemble_stride :: "nat \<Rightarrow> string list \<Rightarrow> string" where
  "reassemble_stride stride [] = []"
| "reassemble_stride stride [c] = c"
| "reassemble_stride stride (c # d # cs) = take stride c @ reassemble_stride stride (d # cs)"

text \<open>
  The specification's reassembly applied to what \<open>chunkText\<close> returns for a text.
\<close>

definition chunk_reassembly :: "Config \<Rightarrow> string \<Rightarrow> string option" where
  "chunk_reassembly cfg s =
     map_option (\<lambda>chunks. reassemble (nat (chunkOverlap cfg)) (map ctext chunks)) (chunkText cfg s)"

section \<open>Example inputs\<close>

text \<open>The configuration an encoder constructed with \<open>{chunkSize, chunkOverlap}\<close> keeps.\<close>

definition example_config :: "int \<Rightarrow> int \<Rightarrow> Config" where
  "example_config cs co =
     \<lparr>chunkSize = cs, chunkOverlap = co, videoFps = 1, qrErrorCorrectionLevel = M,
      videoResolution = (256, 256), verbose = False\<rparr>"

text \<open>
  Collaborators that all succeed: the QR library returns a two-byte image, the embedder a
  two-component vector, the video tool a four-byte file; the database is empty and no frame
  can be extracted.
\<close>

definition example_env :: Env where
  "example_env =
     \<lparr>cwd = ''/work'', now = 1700000000000,
      qr_toBuffer = (\<lambda>t l w. Inr [length t, 0]),
      embed = (\<lambda>t. Inr [real (length t), 1]),
      fs_fault = (\<lambda>p. None),
      ffmpeg_encode = (\<lambda>i out. Finished [0, 0, 0, 1]),
      db_search = (\<lambda>q k. Inr []),
      ffmpeg_frame = (\<lambda>nd n. None),
      qr_decode = (\<lambda>b. None)\<rparr>"

text \<open>The same, except that the video tool fails after writing two bytes of output.\<close>

definition example_env_encoder_fails :: Env where
  "example_env_encoder_fails =
     example_env\<lparr>ffmpeg_encode := (\<lambda>i out. Failed ''Conversion failed!'' (Some [0, 0]))\<rparr>"

definition no_files :: fs where
  "no_files = Map.empty"

text \<open>An index entry for frame \<open>n\<close> of document \<open>doc\<close>.\<close>

definition example_entry :: "nat \<Rightarrow> real list \<Rightarrow> QRVideoStoreIndexEntry" where
  "example_entry n emb =
     \<lparr>chunkText_field = ''chunk'', embedding = emb, frameNumber = n, documentId = ''doc'',
      similarity = Some 1, metadata = []\<rparr>"

text \<open>
  A video \<open>v.mp4\<close> on disk. Its frames 0, 1 and 4 decode to \<open>A\<close>, \<open>B\<close> and \<open>E\<close>, frame 2
  decodes to the empty string, frame 3 is extracted but holds no readable code, and no
  frame beyond 4 can be extracted. The index answers every query with frames 0, 7, 1.
\<close>

definition example_video_fs :: fs where
  "example_video_fs = no_files(''v.mp4'' \<mapsto> File [9])"

definition example_env_frames :: Env where
  "example_env_frames =
     example_env
       \<lparr>db_search := (\<lambda>q k. Inr [example_entry 0 [1, 1], example_entry 7 [1, 1],
                                   example_entry 1 [1, 1]]),
        ffmpeg_frame := (\<lambda>nd n. if n < 5 then Some [Suc n] else None),
        qr_decode := (\<lambda>b. if b = [1] then Some ''A'' else if b = [2] then Some ''B''
                           else if b = [3] then Some [] else if b = [5] then Some ''E''
                           else None)\<rparr>"

section \<open>Properties of the chunker\<close>


lemma substring_window:
  assumes "i < length text"
  shows "substring text (int i) (min (int i + int sz) (int (length text)))
         = take (min (i + sz) (length text) - i) (drop i text)"
proof -
  have "nat (min (int i + int sz) (int (length text)) - int i)
        = min (i + sz) (length text) - i"
    using assms by (auto simp: min_def nat_diff_distrib)
  then show ?thesis
    using assms by (simp add: substring_def Let_def min_def max_def)
qed

lemma chunkText_loop_window:
  "chunkSize cfg = int sz \<Longrightarrow> chunkSize cfg - chunkOverlap cfg = int stride \<Longrightarrow> 0 < stride
   \<Longrightarrow> k = length acc
   \<Longrightarrow> chunkText_loop cfg s (int i) acc
         = Some (acc @ sliding_window_from sz stride s i k)"
proof (induction sz stride s i k arbitrary: acc rule: sliding_window_from.induct)
  case (1 sz stride s i k)
  show ?case
  proof (cases "i < length s")
    case False
    then show ?thesis
      by (simp add: chunkText_loop.simps sliding_window_from.simps)
  next
    case True
    let ?c = "\<lparr>ctext = take (min (i + sz) (length s) - i) (drop i s),
               cindex = k,
               cmetadata = [(''startPosition'', MNum (int i)),
                            (''endPosition'', MNum (int (min (i + sz) (length s))))]\<rparr>"
    have step: "chunkText_loop cfg s (int i) acc
                = chunkText_loop cfg s (int (i + stride)) (acc @ [?c])"
      using True "1.prems" substring_window [OF True, of sz]
      by (subst chunkText_loop.simps) (simp add: Let_def min_def)
    have "chunkText_loop cfg s (int (i + stride)) (acc @ [?c])
          = Some ((acc @ [?c]) @ sliding_window_from sz stride s (i + stride) (Suc k))"
      using True "1.prems" by (intro "1.IH") simp_all
    with step True "1.prems" show ?thesis
      by (subst sliding_window_from.simps) simp
  qed
qed


lemma chunkText_loop_terminates:
  "chunkOverlap cfg < chunkSize cfg \<Longrightarrow> \<exists>chunks. chunkText_loop cfg s i acc = Some chunks"
proof (induction "nat (int (length s) - i)" arbitrary: i acc rule: less_induct)
  case less
  show ?case
  proof (cases "i < int (length s)")
    case False
    then show ?thesis by (simp add: chunkText_loop.simps)
  next
    case True
    have "nat (int (length s) - (i + (chunkSize cfg - chunkOverlap cfg))) < nat (int (length s) - i)"
      using True less.prems by simp
    from less.hyps [OF this less.prems] True show ?thesis
      by (subst chunkText_loop.simps) (simp add: Let_def)
  qed
qed

lemma chunkText_loop_stuck:
  assumes "chunkText_loop cfg s i acc = Some y"
  shows "chunkSize cfg \<le> chunkOverlap cfg \<longrightarrow> int (length s) \<le> i"
proof (rule chunkText_loop.raw_induct
    [where P = "\<lambda>cfg (s::string) (i::int) (acc::Chunk list) (y::Chunk list).
                  chunkSize cfg \<le> chunkOverlap cfg \<longrightarrow> int (length s) \<le> i",
      OF _ assms])
  fix f :: "Config \<Rightarrow> string \<Rightarrow> int \<Rightarrow> Chunk list \<Rightarrow> Chunk list option"
  fix cfg s i acc y
  assume IH: "\<And>cfg s i acc y. f cfg s i acc = Some y
                \<Longrightarrow> chunkSize cfg \<le> chunkOverlap cfg \<longrightarrow> int (length s) \<le> i"
  assume body: "(if i < int (length s) then
        (let end = min (i + chunkSize cfg) (int (length s));
             chunkText = substring s i end
         in f cfg s (i + (chunkSize cfg - chunkOverlap cfg))
              (acc @ [\<lparr>ctext = chunkText, cindex = length acc,
                   cmetadata = [(''startPosition'', MNum i), (''endPosition'', MNum end)]\<rparr>]))
      else Some acc) = Some y"
  show "chunkSize cfg \<le> chunkOverlap cfg \<longrightarrow> int (length s) \<le> i"
  proof (cases "i < int (length s)")
    case False
    then show ?thesis by simp
  next
    case True
    with body obtain acc' where "f cfg s (i + (chunkSize cfg - chunkOverlap cfg)) acc' = Some y"
      by (auto simp: Let_def)
    from IH [OF this] True show ?thesis by auto
  qed
qed

lemma chunkText_loop_diverges:
  "chunkSize cfg \<le> chunkOverlap cfg \<Longrightarrow> i < int (length s) \<Longrightarrow> chunkText_loop cfg s i acc = None"
  using chunkText_loop_stuck [of cfg s i acc] by (cases "chunkText_loop cfg s i acc") auto

lemma sliding_window_from_Nil:
  "length s \<le> i \<Longrightarrow> sliding_window_from sz stride s i k = []"
  by (simp add: sliding_window_from.simps)

lemma sliding_window_from_Cons:
  "i < length s \<Longrightarrow> 0 < stride \<Longrightarrow>
   sliding_window_from sz stride s i k =
     \<lparr>ctext = take (min (i + sz) (length s) - i) (drop i s), cindex = k,
      cmetadata = [(''startPosition'', MNum (int i)),
                   (''endPosition'', MNum (int (min (i + sz) (length s))))]\<rparr>
     # sliding_window_from sz stride s (i + stride) (Suc k)"
  by (subst sliding_window_from.simps) simp

lemma sliding_window_from_index:
  "0 < stride \<Longrightarrow> map cindex (sliding_window_from sz stride s i k)
     = [k ..< k + length (sliding_window_from sz stride s i k)]"
proof (induction sz stride s i k rule: sliding_window_from.induct)
  case (1 sz stride s i k)
  show ?case
  proof (cases "i < length s")
    case False
    then show ?thesis by (simp add: sliding_window_from_Nil)
  next
    case True
    with 1 show ?thesis
      by (simp add: sliding_window_from_Cons upt_conv_Cons del: upt_Suc)
  qed
qed

lemma sliding_window_from_length_le:
  "c \<in> set (sliding_window_from sz stride s i k) \<Longrightarrow> length (ctext c) \<le> sz"
proof (induction sz stride s i k rule: sliding_window_from.induct)
  case (1 sz stride s i k)
  then show ?case
    by (subst (asm) (2) sliding_window_from.simps) (auto split: if_splits)
qed

lemma reassemble_stride_window:
  "0 < stride \<Longrightarrow> stride \<le> sz \<Longrightarrow> i \<le> length s \<Longrightarrow>
   reassemble_stride stride (map ctext (sliding_window_from sz stride s i k)) = drop i s"
proof (induction sz stride s i k rule: sliding_window_from.induct)
  case (1 sz stride s i k)
  show ?case
  proof (cases "i < length s")
    case False
    with "1.prems" show ?thesis by (simp add: sliding_window_from_Nil)
  next
    case True
    note W = sliding_window_from_Cons [OF True "1.prems"(1), of sz k]
    show ?thesis
    proof (cases "i + stride < length s")
      case False
      then have "sliding_window_from sz stride s (i + stride) (Suc k) = []"
        by (simp add: sliding_window_from_Nil)
      moreover have "take (min (i + sz) (length s) - i) (drop i s) = drop i s"
        using False "1.prems" by (intro take_all) (auto simp: min_def)
      ultimately show ?thesis using W by simp
    next
      case next_in: True
      then obtain d ds where D: "sliding_window_from sz stride s (i + stride) (Suc k) = d # ds"
        using sliding_window_from_Cons [OF next_in "1.prems"(1)] by blast
      have IH: "reassemble_stride stride (map ctext (sliding_window_from sz stride s (i + stride) (Suc k)))
                = drop (i + stride) s"
        using "1.IH" True "1.prems" next_in by simp
      have "take stride (take (min (i + sz) (length s) - i) (drop i s)) = take stride (drop i s)"
        using next_in "1.prems" by (simp add: min_def)
      moreover have "take stride (drop i s) @ drop (i + stride) s = drop i s"
        by (metis add.commute append_take_drop_id drop_drop)
      ultimately show ?thesis
        using W D IH by simp
    qed
  qed
qed

lemma last_window_fits:
  "0 < stride \<Longrightarrow> i < length s \<Longrightarrow>
   ov \<le> length (ctext (last (sliding_window_from sz stride s i k))) \<Longrightarrow> i + ov \<le> length s"
proof (induction sz stride s i k rule: sliding_window_from.induct)
  case (1 sz stride s i k)
  note W = sliding_window_from_Cons [OF "1.prems"(2) "1.prems"(1), of sz k]
  show ?case
  proof (cases "i + stride < length s")
    case False
    then have "sliding_window_from sz stride s (i + stride) (Suc k) = []"
      by (simp add: sliding_window_from_Nil)
    with W "1.prems" show ?thesis by (simp add: min_def split: if_splits)
  next
    case True
    then obtain d ds where D: "sliding_window_from sz stride s (i + stride) (Suc k) = d # ds"
      using sliding_window_from_Cons [OF True "1.prems"(1)] by blast
    with W "1.prems" have "ov \<le> length (ctext (last (sliding_window_from sz stride s (i + stride) (Suc k))))"
      by simp
    with "1.IH" "1.prems" True have "i + stride + ov \<le> length s" by simp
    then show ?thesis by simp
  qed
qed

lemma reassemble_window:
  "0 < stride \<Longrightarrow> stride \<le> sz \<Longrightarrow> i < length s \<Longrightarrow>
   sz - stride \<le> length (ctext (last (sliding_window_from sz stride s i k))) \<Longrightarrow>
   reassemble (sz - stride) (map ctext (sliding_window_from sz stride s i k)) = drop i s"
proof (induction sz stride s i k rule: sliding_window_from.induct)
  case (1 sz stride s i k)
  note W = sliding_window_from_Cons [OF "1.prems"(3) "1.prems"(1), of sz k]
  show ?case
  proof (cases "i + stride < length s")
    case False
    then have "sliding_window_from sz stride s (i + stride) (Suc k) = []"
      by (simp add: sliding_window_from_Nil)
    moreover have "take (min (i + sz) (length s) - i) (drop i s) = drop i s"
      using False "1.prems" by (intro take_all) (auto simp: min_def)
    ultimately show ?thesis using W by simp
  next
    case True
    then obtain d ds where D: "sliding_window_from sz stride s (i + stride) (Suc k) = d # ds"
      using sliding_window_from_Cons [OF True "1.prems"(1)] by blast
    with W "1.prems" have L: "sz - stride \<le> length (ctext (last (sliding_window_from sz stride s (i + stride) (Suc k))))"
      by simp
    have fits: "i + sz \<le> length s"
      using last_window_fits [OF "1.prems"(1) True L] "1.prems"(2) by simp
    have IH: "reassemble (sz - stride) (map ctext (sliding_window_from sz stride s (i + stride) (Suc k)))
              = drop (i + stride) s"
      using "1.IH" "1.prems" True L by simp
    have m: "min (i + sz) (length s) - i = sz"
      using fits by simp
    have len: "length (take sz (drop i s)) = sz"
      using fits by simp
    have "take (length (take (min (i + sz) (length s) - i) (drop i s)) - (sz - stride))
            (take (min (i + sz) (length s) - i) (drop i s)) = take stride (drop i s)"
      unfolding m len using "1.prems"(2) by (simp add: min_absorb1)
    moreover have "take stride (drop i s) @ drop (i + stride) s = drop i s"
      by (metis add.commute append_take_drop_id drop_drop)
    ultimately show ?thesis
      using W D IH by simp
  qed
qed



lemma sliding_window_example:
  "sliding_window 10 2 ''ABCDEFGHIJKLMNOPQR'' =
     [\<lparr>ctext = ''ABCDEFGHIJ'', cindex = 0,
       cmetadata = [(''startPosition'', MNum 0), (''endPosition'', MNum 10)]\<rparr>,
      \<lparr>ctext = ''IJKLMNOPQR'', cindex = 1,
       cmetadata = [(''startPosition'', MNum 8), (''endPosition'', MNum 18)]\<rparr>,
      \<lparr>ctext = ''QR'', cindex = 2,
       cmetadata = [(''startPosition'', MNum 16), (''endPosition'', MNum 18)]\<rparr>]"
  by (simp add: sliding_window_def sliding_window_from.simps)

lemma chunkText_example:
  "chunkText (example_config 10 2) ''ABCDEFGHIJKLMNOPQR'' =
     Some [\<lparr>ctext = ''ABCDEFGHIJ'', cindex = 0,
             cmetadata = [(''startPosition'', MNum 0), (''endPosition'', MNum 10)]\<rparr>,
           \<lparr>ctext = ''IJKLMNOPQR'', cindex = 1,
             cmetadata = [(''startPosition'', MNum 8), (''endPosition'', MNum 18)]\<rparr>,
           \<lparr>ctext = ''QR'', cindex = 2,
             cmetadata = [(''startPosition'', MNum 16), (''endPosition'', MNum 18)]\<rparr>]"
  by (simp add: chunkText_def chunkText_loop.simps example_config_def substring_def Let_def)

lemma chunkText_window:
  assumes "chunkSize cfg = int sz" and "chunkOverlap cfg = int ov" and "ov < sz"
  shows "chunkText cfg s = Some (sliding_window sz ov s)"
proof -
  have "chunkSize cfg - chunkOverlap cfg = int (sz - ov)" and "0 < sz - ov"
    using assms by simp_all
  from chunkText_loop_window [OF assms(1) this, of 0 "[]" s 0] show ?thesis
    by (simp add: chunkText_def sliding_window_def)
qed

section \<open>C3: chunkText is the sliding window\<close>

text \<open>
  Claim C3. For chunk sizes and overlaps that are character counts with
  \<open>chunk_overlap < chunk_size\<close>, and for every text, \<open>chunkText\<close> returns exactly the chunks of
  the specification's sliding window: the substring \<open>[i, min (i + chunk_size) len)\<close> at each
  position \<open>i = 0, stride, 2 stride, \<dots>\<close> below \<open>len\<close>, indexed by emission ordinal. The empty
  text gives no chunk, no chunk is longer than \<open>chunk_size\<close> (the last one is not padded),
  and with size 10 and overlap 2 the text \<open>ABCDEFGHIJKLMNOPQR\<close> gives \<open>ABCDEFGHIJ\<close>,
  \<open>IJKLMNOPQR\<close>, \<open>QR\<close> at indices 0, 1, 2.
\<close>

theorem chunkText_sliding_window:
  assumes "chunkSize cfg = int sz" and "chunkOverlap cfg = int ov" and "ov < sz"
  shows "chunkText cfg s = Some (sliding_window sz ov s)
       \<and> chunkText cfg [] = Some []
       \<and> (\<forall>c \<in> set (sliding_window sz ov s). length (ctext c) \<le> sz)
       \<and> (sz = 10 \<and> ov = 2 \<longrightarrow>
            map_option (map (\<lambda>c. (ctext c, cindex c))) (chunkText cfg ''ABCDEFGHIJKLMNOPQR'')
            = Some [(''ABCDEFGHIJ'', 0), (''IJKLMNOPQR'', 1), (''QR'', 2)])"
proof -
  have main: "chunkText cfg t = Some (sliding_window sz ov t)" for t
    using assms by (rule chunkText_window)
  have empty: "chunkText cfg [] = Some []"
    by (simp add: chunkText_def chunkText_loop.simps)
  have len: "\<forall>c \<in> set (sliding_window sz ov s). length (ctext c) \<le> sz"
    by (auto simp: sliding_window_def dest: sliding_window_from_length_le)
  have ex: "sz = 10 \<and> ov = 2 \<longrightarrow>
            map_option (map (\<lambda>c. (ctext c, cindex c))) (chunkText cfg ''ABCDEFGHIJKLMNOPQR'')
            = Some [(''ABCDEFGHIJ'', 0), (''IJKLMNOPQR'', 1), (''QR'', 2)]"
    by (simp add: main sliding_window_example)
  from main empty len ex show ?thesis by blast
qed

theorem chunkText_sliding_window_witness:
  "chunkText (example_config 10 2) ''ABCDEFGHIJKLMNOPQR''
     = Some (sliding_window 10 2 ''ABCDEFGHIJKLMNOPQR'')
   \<and> map_option (map (\<lambda>c. (ctext c, cindex c)))
        (chunkText (example_config 10 2) ''ABCDEFGHIJKLMNOPQR'')
     = Some [(''ABCDEFGHIJ'', 0), (''IJKLMNOPQR'', 1), (''QR'', 2)]"
proof -
  have "chunkSize (example_config 10 2) = int 10" and "chunkOverlap (example_config 10 2) = int 2"
    and "(2::nat) < 10"
    by (simp_all add: example_config_def)
  from chunkText_sliding_window [OF this, of "''ABCDEFGHIJKLMNOPQR''"] show ?thesis
    by blast
qed

section \<open>C4: reassembling the text from its chunks\<close>

text \<open>
  Claim C4 as stated fails: with size 10 and overlap 2 the nine-character text
  \<open>ABCDEFGHI\<close> is chunked into \<open>ABCDEFGHI\<close> and \<open>I\<close>; dropping the last two characters of
  the first chunk loses \<open>H\<close>.
\<close>

theorem chunk_reassembly_counterexample:
  "chunk_reassembly (example_config 10 2) ''ABCDEFGHI'' = Some ''ABCDEFGI''"
  by (simp add: chunk_reassembly_def chunkText_def chunkText_loop.simps example_config_def
      substring_def Let_def)

text \<open>
  Claim C4, amended. For character counts \<open>chunk_overlap < chunk_size\<close> and every text, the
  chunks in frame order reproduce the text when the first \<open>chunk_size - chunk_overlap\<close>
  characters of every chunk except the last are kept; removing the last \<open>chunk_overlap\<close>
  characters of every chunk except the last reproduces the text whenever the text is empty
  or the last chunk has at least \<open>chunk_overlap\<close> characters.
\<close>

theorem chunk_reassembly_correct:
  assumes "chunkSize cfg = int sz" and "chunkOverlap cfg = int ov" and "ov < sz"
  shows "\<exists>chunks. chunkText cfg s = Some chunks
           \<and> reassemble_stride (sz - ov) (map ctext chunks) = s
           \<and> (s = [] \<or> ov \<le> length (ctext (last chunks)) \<longrightarrow> chunk_reassembly cfg s = Some s)"
proof -
  have pos: "0 < sz - ov"
    using assms by simp
  have main: "chunkText cfg s = Some (sliding_window sz ov s)"
    using assms by (rule chunkText_window)
  have A: "reassemble_stride (sz - ov) (map ctext (sliding_window sz ov s)) = s"
    using reassemble_stride_window [OF pos, of sz 0 s 0] by (simp add: sliding_window_def)
  have B: "reassemble ov (map ctext (sliding_window sz ov s)) = s"
    if "s = [] \<or> ov \<le> length (ctext (last (sliding_window sz ov s)))"
  proof (cases "s = []")
    case True
    then show ?thesis by (simp add: sliding_window_def sliding_window_from_Nil)
  next
    case False
    with that have "sz - (sz - ov) \<le> length (ctext (last (sliding_window_from sz (sz - ov) s 0 0)))"
      using assms(3) by (simp add: sliding_window_def)
    from reassemble_window [OF pos _ _ this] False assms(3) show ?thesis
      by (simp add: sliding_window_def)
  qed
  show ?thesis
    using main A B assms(2) by (auto simp: chunk_reassembly_def)
qed

theorem chunk_reassembly_correct_witness:
  "reassemble_stride 8 (map ctext (the (chunkText (example_config 10 2) ''ABCDEFGHIJKLMNOPQR'')))
     = ''ABCDEFGHIJKLMNOPQR''
   \<and> chunk_reassembly (example_config 10 2) ''ABCDEFGHIJKLMNOPQR'' = Some ''ABCDEFGHIJKLMNOPQR''"
  using chunk_reassembly_correct [of "example_config 10 2" 10 2 "''ABCDEFGHIJKLMNOPQR''"]
    chunkText_example
  by (auto simp: example_config_def)

section \<open>C2: the constructor and termination of chunkText\<close>

text \<open>
  Claim C2 as stated fails: an encoder with \<open>chunk_overlap = chunk_size = 10\<close> is
  constructed, and its \<open>chunkText\<close> never returns on the one-character text \<open>A\<close>.
\<close>

theorem constructor_counterexample:
  "new_QRVideoStoreEncoder
     \<lparr>chunkSize_opt = Some 10, chunkOverlap_opt = Some 10, videoFps_opt = None,
      qrErrorCorrectionLevel_opt = None, videoResolution_opt = None, verbose_opt = None\<rparr>
   = Inr (example_config 10 10)
   \<and> chunkText (example_config 10 10) ''A'' = None"
  by (simp add: new_QRVideoStoreEncoder_def nullish_def example_config_def chunkText_def
      chunkText_loop_diverges)

text \<open>
  Claim C2, amended. Constructing an encoder never fails: every configuration is accepted
  and its chunk size and overlap are stored as given (500 and 50 when absent). Under the
  precondition \<open>chunk_overlap < chunk_size\<close>, \<open>chunkText\<close> returns for every input text.
\<close>

theorem constructor_never_fails:
  "(\<exists>cfg. new_QRVideoStoreEncoder config = Inr cfg
          \<and> chunkSize cfg = nullish (chunkSize_opt config) 500
          \<and> chunkOverlap cfg = nullish (chunkOverlap_opt config) 50)
   \<and> (\<forall>cfg s. chunkOverlap cfg < chunkSize cfg \<longrightarrow> (\<exists>chunks. chunkText cfg s = Some chunks))"
  by (simp add: new_QRVideoStoreEncoder_def chunkText_def chunkText_loop_terminates)

theorem constructor_never_fails_witness:
  "(\<exists>cfg. new_QRVideoStoreEncoder
            \<lparr>chunkSize_opt = None, chunkOverlap_opt = None, videoFps_opt = None,
             qrErrorCorrectionLevel_opt = None, videoResolution_opt = None, verbose_opt = None\<rparr>
          = Inr cfg \<and> chunkSize cfg = 500 \<and> chunkOverlap cfg = 50)
   \<and> (\<exists>chunks. chunkText (example_config 500 50) ''some text'' = Some chunks)"
proof -
  have h: "chunkOverlap (example_config 500 50) < chunkSize (example_config 500 50)"
    by (simp add: example_config_def)
  from constructor_never_fails
    [of "\<lparr>chunkSize_opt = None, chunkOverlap_opt = None, videoFps_opt = None,
         qrErrorCorrectionLevel_opt = None, videoResolution_opt = None, verbose_opt = None\<rparr>"]
    h show ?thesis
    by (simp add: nullish_def)
qed


section \<open>Properties of addDocument and buildVideo\<close>

lemma chunkText_loop_index:
  assumes "chunkText_loop cfg s i acc = Some chunks"
  shows "map cindex acc = [0 ..< length acc] \<longrightarrow> map cindex chunks = [0 ..< length chunks]"
proof (rule chunkText_loop.raw_induct
    [where P = "\<lambda>(cfg::Config) (s::string) (i::int) (acc::Chunk list) (chunks::Chunk list).
                  map cindex acc = [0 ..< length acc] \<longrightarrow> map cindex chunks = [0 ..< length chunks]",
      OF _ assms])
  fix f :: "Config \<Rightarrow> string \<Rightarrow> int \<Rightarrow> Chunk list \<Rightarrow> Chunk list option"
  fix cfg s i acc y
  assume IH: "\<And>cfg s i acc y. f cfg s i acc = Some y
                \<Longrightarrow> map cindex acc = [0 ..< length acc] \<longrightarrow> map cindex y = [0 ..< length y]"
  assume body: "(if i < int (length s) then
        (let end = min (i + chunkSize cfg) (int (length s));
             chunkText = substring s i end
         in f cfg s (i + (chunkSize cfg - chunkOverlap cfg))
              (acc @ [\<lparr>ctext = chunkText, cindex = length acc,
                   cmetadata = [(''startPosition'', MNum i), (''endPosition'', MNum end)]\<rparr>]))
      else Some acc) = Some y"
  show "map cindex acc = [0 ..< length acc] \<longrightarrow> map cindex y = [0 ..< length y]"
  proof (cases "i < int (length s)")
    case False
    with body show ?thesis by simp
  next
    case True
    let ?c = "\<lparr>ctext = substring s i (min (i + chunkSize cfg) (int (length s))),
               cindex = length acc,
               cmetadata = [(''startPosition'', MNum i),
                            (''endPosition'', MNum (min (i + chunkSize cfg) (int (length s))))]\<rparr>"
    from body True
    have call: "f cfg s (i + (chunkSize cfg - chunkOverlap cfg)) (acc @ [?c]) = Some y"
      by (simp add: Let_def)
    from IH [OF call] show ?thesis by simp
  qed
qed

lemma chunkText_index:
  "chunkText cfg s = Some chunks \<Longrightarrow> map cindex chunks = [0 ..< length chunks]"
  using chunkText_loop_index [of cfg s 0 "[]" chunks] by (simp add: chunkText_def)

lemma processChunks_entries:
  "processChunks env cfg docId userMeta chunks qrs entries = Inr (qrs', entries') \<Longrightarrow>
   map frameNumber entries' = map frameNumber entries @ map cindex chunks
   \<and> map documentId entries' = map documentId entries @ replicate (length chunks) docId
   \<and> length qrs' = length qrs + length chunks"
proof (induction chunks arbitrary: qrs entries)
  case Nil
  then show ?case by simp
next
  case (Cons chunk rest)
  then show ?case
    by (auto split: sum.splits simp: replicate_app_Cons_same)
qed

lemma addDocument_success:
  assumes "addDocument env cfg docId s out userMeta w = Some (Inr (), w')"
  shows "\<exists>chunks qrs entries. chunkText cfg s = Some chunks
           \<and> processChunks env cfg docId userMeta chunks [] [] = Inr (qrs, entries)
           \<and> fst (buildVideo env qrs out (files w)) = Inr ()
           \<and> db_store w' = db_store w @ entries"
  using assms
  by (auto simp: addDocument_def upsert_def split: option.splits sum.splits prod.splits)

lemma writeFrames_no_fault:
  "\<forall>p. fs_fault env p = None \<Longrightarrow> fst (writeFrames env d bufs i fsys) = Inr ()"
  by (induction bufs arbitrary: i fsys) (simp_all add: Let_def)

lemma ensure_dir_no_fault:
  "\<forall>p. fs_fault env p = None \<Longrightarrow> fst (ensure_dir env p fsys) = Inr ()"
  by (simp add: ensure_dir_def mkdirSync_def)

lemma buildVideo_try_no_fault:
  assumes "\<forall>p. fs_fault env p = None"
  shows "\<exists>fs3. buildVideo_try env d bufs out fsys = encodeVideo env d out fs3"
proof -
  obtain fs1 where s1: "ensure_dir env d fsys = (Inr (), fs1)"
    using ensure_dir_no_fault [OF assms, of d fsys] by (cases "ensure_dir env d fsys") simp
  obtain fs2 where s2: "writeFrames env d bufs 0 fs1 = (Inr (), fs2)"
    using writeFrames_no_fault [OF assms, of d bufs 0 fs1]
    by (cases "writeFrames env d bufs 0 fs1") simp
  obtain fs3 where s3: "ensure_dir env (path_dirname out) fs2 = (Inr (), fs3)"
    using ensure_dir_no_fault [OF assms, of "path_dirname out" fs2]
    by (cases "ensure_dir env (path_dirname out) fs2") simp
  have "buildVideo_try env d bufs out fsys = encodeVideo env d out fs3"
    by (simp add: buildVideo_try_def s1 s2 s3)
  then show ?thesis by (rule exI [of _ fs3])
qed

lemma buildVideo_try_finished:
  assumes "\<forall>p. fs_fault env p = None"
    and "ffmpeg_encode env (path_join d ''frame_%05d.png'') out = Finished v"
  shows "fst (buildVideo_try env d bufs out fsys) = Inr ()"
  using buildVideo_try_no_fault [OF assms(1), of d bufs out fsys] assms(2)
  by (auto simp: encodeVideo_def)

lemma buildVideo_fst:
  "fst (buildVideo env bufs out fsys) = fst (buildVideo_try env (tempDir_of env) bufs out fsys)"
  by (simp add: buildVideo_def Let_def split: prod.splits)

lemma processChunks_no_fault:
  assumes "\<forall>t l w. \<exists>b. qr_toBuffer env t l w = Inr b" and "\<forall>t. \<exists>v. embed env t = Inr v"
  shows "\<exists>res. processChunks env cfg docId userMeta chunks qrs entries = Inr res"
proof (induction chunks arbitrary: qrs entries)
  case Nil
  show ?case by simp
next
  case (Cons chunk rest)
  from assms(1) obtain b where b: "generateQrCode env cfg (ctext chunk) = Inr b"
    unfolding generateQrCode_def by blast
  from assms(2) obtain v where v: "embed env (ctext chunk) = Inr v"
    by blast
  from Cons.IH b v show ?case by simp
qed

lemma addDocument_succeeds:
  assumes "chunkText cfg s = Some chunks"
    and "processChunks env cfg docId userMeta chunks [] [] = Inr (qrs, entries)"
    and "fst (buildVideo env qrs out (files w)) = Inr ()"
  shows "\<exists>w'. addDocument env cfg docId s out userMeta w = Some (Inr (), w')"
  using assms by (cases "buildVideo env qrs out (files w)") (simp add: addDocument_def)

lemma writeFrames_keeps:
  "fsys p \<noteq> None \<Longrightarrow> snd (writeFrames env d bufs i fsys) p \<noteq> None"
  by (induction bufs arbitrary: i fsys) (auto simp: Let_def split: option.splits)

lemma ensure_dir_keeps:
  "fsys p \<noteq> None \<Longrightarrow> snd (ensure_dir env q fsys) p \<noteq> None"
  by (auto simp: ensure_dir_def mkdirSync_def split: option.splits)

lemma encodeVideo_keeps:
  "fsys p \<noteq> None \<Longrightarrow> snd (encodeVideo env d out fsys) p \<noteq> None"
  by (auto simp: encodeVideo_def split: ffmpeg_outcome.splits option.splits)

lemma buildVideo_try_keeps:
  assumes "fsys p \<noteq> None"
  shows "snd (buildVideo_try env d bufs out fsys) p \<noteq> None"
proof -
  obtain r1 fs1 where s1: "ensure_dir env d fsys = (r1, fs1)" by fastforce
  obtain r2 fs2 where s2: "writeFrames env d bufs 0 fs1 = (r2, fs2)" by fastforce
  obtain r3 fs3 where s3: "ensure_dir env (path_dirname out) fs2 = (r3, fs3)" by fastforce
  have k1: "fs1 p \<noteq> None" using ensure_dir_keeps [of fsys p env d] assms s1 by simp
  have k2: "fs2 p \<noteq> None" using writeFrames_keeps [of fs1 p env d bufs 0] k1 s2 by simp
  have k3: "fs3 p \<noteq> None" using ensure_dir_keeps [of fs2 p env "path_dirname out"] k2 s3 by simp
  have k4: "snd (encodeVideo env d out fs3) p \<noteq> None" using encodeVideo_keeps [of fs3 p env d out] k3 by simp
  show ?thesis
    using k1 k2 k3 k4 by (simp add: buildVideo_try_def s1 s2 s3 split: sum.splits)
qed

lemma buildVideo_try_dir_missing:
  assumes "snd (buildVideo_try env d bufs out fsys) d = None"
  shows "snd (buildVideo_try env d bufs out fsys) = fsys"
proof (cases "ensure_dir env d fsys")
  case (Pair r1 fs1)
  show ?thesis
  proof (cases r1)
    case (Inl e)
    with Pair have "fs1 = fsys"
      by (auto simp: ensure_dir_def mkdirSync_def split: if_splits option.splits)
    with Pair Inl show ?thesis by (simp add: buildVideo_try_def)
  next
    case (Inr u)
    with Pair have d1: "fs1 d \<noteq> None"
      by (auto simp: ensure_dir_def mkdirSync_def existsSync_def split: if_splits option.splits)
    obtain r2 fs2 where s2: "writeFrames env d bufs 0 fs1 = (r2, fs2)" by fastforce
    obtain r3 fs3 where s3: "ensure_dir env (path_dirname out) fs2 = (r3, fs3)" by fastforce
    have k2: "fs2 d \<noteq> None" using writeFrames_keeps [of fs1 d env d bufs 0] d1 s2 by simp
    have k3: "fs3 d \<noteq> None" using ensure_dir_keeps [of fs2 d env "path_dirname out"] k2 s3 by simp
    have k4: "snd (encodeVideo env d out fs3) d \<noteq> None" using encodeVideo_keeps [of fs3 d env d out] k3 by simp
    have "snd (buildVideo_try env d bufs out fsys) d \<noteq> None"
      using k2 k3 k4 by (simp add: buildVideo_try_def Pair Inr s2 s3 split: sum.splits)
    with assms show ?thesis by simp
  qed
qed

lemma buildVideo_snd:
  "snd (buildVideo env bufs out fsys) =
     (let fs1 = snd (buildVideo_try env (tempDir_of env) bufs out fsys)
      in if existsSync fs1 (tempDir_of env) then rm_rf fs1 (tempDir_of env) else fs1)"
  by (simp add: buildVideo_def Let_def split: prod.splits)

lemma buildVideo_removes_tempDir:
  assumes "\<forall>q. is_below (tempDir_of env) q \<longrightarrow> fsys q \<noteq> None \<longrightarrow> fsys (tempDir_of env) \<noteq> None"
  shows "snd (buildVideo env bufs out fsys) (tempDir_of env) = None"
    and "is_below (tempDir_of env) q \<Longrightarrow> snd (buildVideo env bufs out fsys) q = None"
proof -
  let ?d = "tempDir_of env"
  let ?fs1 = "snd (buildVideo_try env ?d bufs out fsys)"
  show "snd (buildVideo env bufs out fsys) ?d = None"
    by (simp add: buildVideo_snd Let_def rm_rf_def existsSync_def)
  show "snd (buildVideo env bufs out fsys) q = None" if q: "is_below ?d q"
  proof (cases "existsSync ?fs1 ?d")
    case True
    with q show ?thesis by (simp add: buildVideo_snd Let_def rm_rf_def)
  next
    case False
    then have gone: "?fs1 ?d = None" by (simp add: existsSync_def)
    then have same: "?fs1 = fsys" by (rule buildVideo_try_dir_missing)
    with gone have "fsys ?d = None" by simp
    with assms q have "fsys q = None" by blast
    with False same show ?thesis by (simp add: buildVideo_snd Let_def)
  qed
qed

lemma buildVideo_encoder_failure:
  assumes nf: "\<forall>p. fs_fault env p = None"
    and fail: "ffmpeg_encode env (path_join (tempDir_of env) ''frame_%05d.png'') out = Failed msg partial"
  shows "fst (buildVideo env bufs out fsys) = Inl (Error (''FFmpeg error: '' @ msg))"
    and "partial = Some p \<Longrightarrow> out \<noteq> tempDir_of env \<Longrightarrow> \<not> is_below (tempDir_of env) out
         \<Longrightarrow> snd (buildVideo env bufs out fsys) out = Some (File p)"
proof -
  from buildVideo_try_no_fault [OF nf, of "tempDir_of env" bufs out fsys] obtain fs3 where
    t: "buildVideo_try env (tempDir_of env) bufs out fsys = encodeVideo env (tempDir_of env) out fs3"
    by blast
  show "fst (buildVideo env bufs out fsys) = Inl (Error (''FFmpeg error: '' @ msg))"
    using fail by (simp add: buildVideo_fst t encodeVideo_def)
  show "snd (buildVideo env bufs out fsys) out = Some (File p)"
    if "partial = Some p" "out \<noteq> tempDir_of env" "\<not> is_below (tempDir_of env) out"
    using that fail by (simp add: buildVideo_snd t encodeVideo_def Let_def rm_rf_def)
qed

lemma addDocument_buildVideo_fails:
  assumes "chunkText cfg s = Some chunks"
    and "processChunks env cfg docId userMeta chunks [] [] = Inr (qrs, entries)"
    and "fst (buildVideo env qrs out (files w)) = Inl e"
  shows "addDocument env cfg docId s out userMeta w
         = Some (Inl e, w\<lparr>files := snd (buildVideo env qrs out (files w))\<rparr>)"
  using assms by (cases "buildVideo env qrs out (files w)") (simp add: addDocument_def)


section \<open>C1: frame numbers of an added document\<close>

text \<open>
  Claim C1. Whenever \<open>addDocument\<close> succeeds on an index that holds no entry for the
  document id, the entries of that document in the index afterwards carry, in order, the
  frame numbers \<open>0, 1, \<dots>, n - 1\<close>, where \<open>n\<close> is the number of chunks \<open>chunkText\<close> produces
  for the text: the set of frame numbers is \<open>{0, \<dots>, n - 1}\<close>, with no gap and no duplicate.
  (The statement holds for the empty text as well.)
\<close>

theorem addDocument_frame_numbers:
  assumes "addDocument env cfg docId s out userMeta w = Some (Inr (), w')"
    and "\<forall>e \<in> set (db_store w). documentId e \<noteq> docId"
  shows "\<exists>chunks. chunkText cfg s = Some chunks
           \<and> map frameNumber (filter (\<lambda>e. documentId e = docId) (db_store w'))
               = [0 ..< length chunks]
           \<and> frameNumber ` {e \<in> set (db_store w'). documentId e = docId} = {0 ..< length chunks}
           \<and> distinct (map frameNumber (filter (\<lambda>e. documentId e = docId) (db_store w')))"
proof -
  from addDocument_success [OF assms(1)] obtain chunks qrs entries where
    ch: "chunkText cfg s = Some chunks"
    and pc: "processChunks env cfg docId userMeta chunks [] [] = Inr (qrs, entries)"
    and st: "db_store w' = db_store w @ entries"
    by blast
  from processChunks_entries [OF pc] chunkText_index [OF ch]
  have fn: "map frameNumber entries = [0 ..< length chunks]"
    and ids: "map documentId entries = replicate (length chunks) docId"
    by simp_all
  have "\<forall>e \<in> set entries. documentId e = docId"
  proof
    fix e assume "e \<in> set entries"
    then have "documentId e \<in> set (map documentId entries)" by simp
    with ids show "documentId e = docId" by simp
  qed
  then have "filter (\<lambda>e. documentId e = docId) entries = entries"
    by simp
  moreover have "filter (\<lambda>e. documentId e = docId) (db_store w) = []"
    using assms(2) by (simp add: filter_empty_conv)
  ultimately have flt: "filter (\<lambda>e. documentId e = docId) (db_store w') = entries"
    using st by simp
  have "frameNumber ` {e \<in> set (db_store w'). documentId e = docId}
        = set (map frameNumber (filter (\<lambda>e. documentId e = docId) (db_store w')))"
    by auto
  also have "\<dots> = {0 ..< length chunks}"
    by (simp only: flt fn) simp
  finally have img: "frameNumber ` {e \<in> set (db_store w'). documentId e = docId}
                     = {0 ..< length chunks}" .
  have m: "map frameNumber (filter (\<lambda>e. documentId e = docId) (db_store w')) = [0 ..< length chunks]"
    by (simp only: flt fn)
  have d: "distinct (map frameNumber (filter (\<lambda>e. documentId e = docId) (db_store w')))"
    by (simp only: m distinct_upt)
  from ch m img d show ?thesis by blast
qed

theorem addDocument_frame_numbers_witness:
  "map frameNumber (filter (\<lambda>e. documentId e = ''doc'')
     (db_store (snd (the (addDocument example_env (example_config 10 2) ''doc''
        ''ABCDEFGHIJKLMNOPQR'' ''out/doc.mp4'' [] \<lparr>files = no_files, db_store = []\<rparr>)))))
   = [0, 1, 2]"
proof -
  let ?w = "\<lparr>files = no_files, db_store = []\<rparr>"
  let ?r = "addDocument example_env (example_config 10 2) ''doc''
              ''ABCDEFGHIJKLMNOPQR'' ''out/doc.mp4'' [] ?w"
  have nf: "\<forall>p. fs_fault example_env p = None"
    by (simp add: example_env_def)
  have bv: "fst (buildVideo example_env bufs out fsys) = Inr ()" for bufs out fsys
    by (rule trans [OF buildVideo_fst buildVideo_try_finished [OF nf]])
      (simp add: example_env_def)
  let ?chunks = "the (chunkText (example_config 10 2) ''ABCDEFGHIJKLMNOPQR'')"
  have q: "\<forall>t l w. \<exists>b. qr_toBuffer example_env t l w = Inr b"
    by (simp add: example_env_def)
  have e: "\<forall>t. \<exists>v. embed example_env t = Inr v"
    by (simp add: example_env_def)
  from processChunks_no_fault [OF q e] obtain res where
    "processChunks example_env (example_config 10 2) ''doc'' [] ?chunks [] [] = Inr res"
    by blast
  then obtain qrs entries where
    pc: "processChunks example_env (example_config 10 2) ''doc'' [] ?chunks [] [] = Inr (qrs, entries)"
    by (cases res) simp
  have ch: "chunkText (example_config 10 2) ''ABCDEFGHIJKLMNOPQR'' = Some ?chunks"
    by (simp add: chunkText_example)
  from addDocument_succeeds [OF ch pc bv] obtain w' where ok: "?r = Some (Inr (), w')"
    by blast
  have "\<forall>e \<in> set (db_store ?w). documentId e \<noteq> ''doc''"
    by simp
  from addDocument_frame_numbers [OF ok this] chunkText_example ok show ?thesis
    by (auto simp: upt_rec)
qed




section \<open>C5: failure of the external video encoder\<close>

lemma frame_path_below:
  "is_below d (path_join d f)"
  by (simp add: is_below_def path_join_def)

lemma example_tempDir:
  "tempDir_of example_env_encoder_fails = ''/work/temp_qr_frames_1700000000000''"
  by (simp add: tempDir_of_def example_env_encoder_fails_def example_env_def path_join_def
      toString.simps)

text \<open>
  Claim C5 as stated fails in one part: nothing in \<open>buildVideo\<close> or \<open>encodeVideo\<close> deletes
  the output file. When the video tool fails after writing two bytes to the output path,
  the error is surfaced and the two bytes are still there afterwards.
\<close>

theorem buildVideo_partial_output_counterexample:
  "fst (buildVideo example_env_encoder_fails [[2, 0]] ''out/doc.mp4'' no_files)
     = Inl (Error ''FFmpeg error: Conversion failed!'')
   \<and> snd (buildVideo example_env_encoder_fails [[2, 0]] ''out/doc.mp4'' no_files) ''out/doc.mp4''
     = Some (File [0, 0])"
proof -
  have nf: "\<forall>p. fs_fault example_env_encoder_fails p = None"
    by (simp add: example_env_encoder_fails_def example_env_def)
  have fail: "ffmpeg_encode example_env_encoder_fails
                (path_join (tempDir_of example_env_encoder_fails) ''frame_%05d.png'') ''out/doc.mp4''
              = Failed ''Conversion failed!'' (Some [0, 0])"
    by (simp add: example_env_encoder_fails_def example_env_def)
  have ne: "''out/doc.mp4'' \<noteq> tempDir_of example_env_encoder_fails"
    and nb: "\<not> is_below (tempDir_of example_env_encoder_fails) ''out/doc.mp4''"
    by (simp_all add: example_tempDir is_below_def)
  from buildVideo_encoder_failure(1) [OF nf fail]
    buildVideo_encoder_failure(2) [OF nf fail refl ne nb]
  show ?thesis by simp
qed

text \<open>
  Claim C5, amended. On every exit path of \<open>buildVideo\<close> (success, a failed write, a failed
  tool run) the scratch directory and every frame file in it are gone afterwards, provided
  the file system had nothing below a missing scratch directory to begin with. When no
  file-system operation fails and the tool reports an error, \<open>buildVideo\<close> fails with
  \<open>FFmpeg error: \<dots>\<close>; a partial file the tool left at the output path is still there (it
  is not deleted). When \<open>buildVideo\<close> fails inside \<open>addDocument\<close>, \<open>addDocument\<close> fails
  with the same error and the index is unchanged.
\<close>

theorem buildVideo_failure_cleanup:
  assumes "\<forall>q. is_below (tempDir_of env) q \<longrightarrow> fsys q \<noteq> None \<longrightarrow> fsys (tempDir_of env) \<noteq> None"
  shows "\<not> existsSync (snd (buildVideo env bufs out fsys)) (tempDir_of env)
       \<and> (\<forall>q. is_below (tempDir_of env) q \<longrightarrow> \<not> existsSync (snd (buildVideo env bufs out fsys)) q)
       \<and> (\<forall>i. \<not> existsSync (snd (buildVideo env bufs out fsys))
                 (path_join (tempDir_of env) (''frame_'' @ padStart5 (toString i) @ ''.png'')))
       \<and> ((\<forall>p. fs_fault env p = None)
            \<and> ffmpeg_encode env (path_join (tempDir_of env) ''frame_%05d.png'') out = Failed msg partial
          \<longrightarrow> fst (buildVideo env bufs out fsys) = Inl (Error (''FFmpeg error: '' @ msg))
              \<and> (\<forall>p. partial = Some p \<and> out \<noteq> tempDir_of env \<and> \<not> is_below (tempDir_of env) out
                    \<longrightarrow> snd (buildVideo env bufs out fsys) out = Some (File p)))
       \<and> (\<forall>e cfg docId s userMeta chunks entries w.
             files w = fsys \<and> chunkText cfg s = Some chunks
             \<and> processChunks env cfg docId userMeta chunks [] [] = Inr (bufs, entries)
             \<and> fst (buildVideo env bufs out fsys) = Inl e
           \<longrightarrow> addDocument env cfg docId s out userMeta w
                 = Some (Inl e, w\<lparr>files := snd (buildVideo env bufs out fsys)\<rparr>))"
proof -
  have a: "\<not> existsSync (snd (buildVideo env bufs out fsys)) (tempDir_of env)"
    using buildVideo_removes_tempDir(1) [OF assms] by (simp add: existsSync_def)
  have b: "\<forall>q. is_below (tempDir_of env) q \<longrightarrow> \<not> existsSync (snd (buildVideo env bufs out fsys)) q"
    using buildVideo_removes_tempDir(2) [OF assms] by (simp add: existsSync_def)
  have c: "\<forall>i. \<not> existsSync (snd (buildVideo env bufs out fsys))
                 (path_join (tempDir_of env) (''frame_'' @ padStart5 (toString i) @ ''.png''))"
    using b frame_path_below by blast
  have d: "(\<forall>p. fs_fault env p = None)
            \<and> ffmpeg_encode env (path_join (tempDir_of env) ''frame_%05d.png'') out = Failed msg partial
          \<longrightarrow> fst (buildVideo env bufs out fsys) = Inl (Error (''FFmpeg error: '' @ msg))
              \<and> (\<forall>p. partial = Some p \<and> out \<noteq> tempDir_of env \<and> \<not> is_below (tempDir_of env) out
                    \<longrightarrow> snd (buildVideo env bufs out fsys) out = Some (File p))"
    using buildVideo_encoder_failure [of env out msg partial] by blast
  have e: "\<forall>e cfg docId s userMeta chunks entries w.
             files w = fsys \<and> chunkText cfg s = Some chunks
             \<and> processChunks env cfg docId userMeta chunks [] [] = Inr (bufs, entries)
             \<and> fst (buildVideo env bufs out fsys) = Inl e
           \<longrightarrow> addDocument env cfg docId s out userMeta w
                 = Some (Inl e, w\<lparr>files := snd (buildVideo env bufs out fsys)\<rparr>)"
    using addDocument_buildVideo_fails by blast
  from a b c d e show ?thesis by blast
qed

theorem buildVideo_failure_cleanup_witness:
  "\<not> existsSync (snd (buildVideo example_env_encoder_fails [[2, 0]] ''out/doc.mp4'' no_files))
       ''/work/temp_qr_frames_1700000000000''
   \<and> \<not> existsSync (snd (buildVideo example_env_encoder_fails [[2, 0]] ''out/doc.mp4'' no_files))
       ''/work/temp_qr_frames_1700000000000/frame_00000.png''
   \<and> fst (buildVideo example_env_encoder_fails [[2, 0]] ''out/doc.mp4'' no_files)
       = Inl (Error ''FFmpeg error: Conversion failed!'')
   \<and> snd (buildVideo example_env_encoder_fails [[2, 0]] ''out/doc.mp4'' no_files) ''out/doc.mp4''
       = Some (File [0, 0])
   \<and> addDocument example_env_encoder_fails (example_config 10 2) ''doc'' ''AB'' ''out/doc.mp4'' []
         \<lparr>files = no_files, db_store = []\<rparr>
       = Some (Inl (Error ''FFmpeg error: Conversion failed!''),
               \<lparr>files = snd (buildVideo example_env_encoder_fails [[2, 0]] ''out/doc.mp4'' no_files),
                db_store = []\<rparr>)"
proof -
  let ?env = example_env_encoder_fails
  let ?B = "buildVideo ?env [[2, 0]] ''out/doc.mp4'' no_files"
  have wf: "\<forall>q. is_below (tempDir_of ?env) q \<longrightarrow> no_files q \<noteq> None
              \<longrightarrow> no_files (tempDir_of ?env) \<noteq> None"
    by (simp add: no_files_def)
  have nf: "\<forall>p. fs_fault ?env p = None"
    by (simp add: example_env_encoder_fails_def example_env_def)
  have fail: "ffmpeg_encode ?env (path_join (tempDir_of ?env) ''frame_%05d.png'') ''out/doc.mp4''
              = Failed ''Conversion failed!'' (Some [0, 0])"
    by (simp add: example_env_encoder_fails_def example_env_def)
  have ne: "''out/doc.mp4'' \<noteq> tempDir_of ?env"
    and nb: "\<not> is_below (tempDir_of ?env) ''out/doc.mp4''"
    by (simp_all add: example_tempDir is_below_def)
  have ch: "chunkText (example_config 10 2) ''AB''
            = Some [\<lparr>ctext = ''AB'', cindex = 0,
                     cmetadata = [(''startPosition'', MNum 0), (''endPosition'', MNum 2)]\<rparr>]"
    by (simp add: chunkText_def chunkText_loop.simps example_config_def substring_def Let_def)
  have pc: "processChunks ?env (example_config 10 2) ''doc'' []
              [\<lparr>ctext = ''AB'', cindex = 0,
                cmetadata = [(''startPosition'', MNum 0), (''endPosition'', MNum 2)]\<rparr>] [] []
            = Inr ([[2, 0]],
                   [\<lparr>chunkText_field = ''AB'', embedding = [2, 1], frameNumber = 0,
                     documentId = ''doc'', similarity = None,
                     metadata = [(''startPosition'', MNum 0), (''endPosition'', MNum 2)]\<rparr>])"
    by (simp add: generateQrCode_def example_env_encoder_fails_def example_env_def spread_def)
  have f0: "path_join (tempDir_of ?env) (''frame_'' @ padStart5 (toString 0) @ ''.png'')
            = ''/work/temp_qr_frames_1700000000000/frame_00000.png''"
    by (simp add: example_tempDir path_join_def padStart5_def toString.simps eval_nat_numeral)
  note T = buildVideo_failure_cleanup [OF wf, of "[[2, 0]]" "''out/doc.mp4''"
      "''Conversion failed!''" "Some [0, 0]"]
  note T1 = T [THEN conjunct1]
  note T3 = T [THEN conjunct2, THEN conjunct2, THEN conjunct1]
  note T4 = T [THEN conjunct2, THEN conjunct2, THEN conjunct2, THEN conjunct1]
  note T5 = T [THEN conjunct2, THEN conjunct2, THEN conjunct2, THEN conjunct2]
  have t1: "\<not> existsSync (snd ?B) (tempDir_of ?env)" by (rule T1)
  have t2: "\<not> existsSync (snd ?B) ''/work/temp_qr_frames_1700000000000/frame_00000.png''"
    using T3 [THEN spec, of 0] unfolding f0 .
  note D = T4 [THEN mp, OF conjI [OF nf fail]]
  have t3: "fst ?B = Inl (Error (''FFmpeg error: '' @ ''Conversion failed!''))"
    by (rule D [THEN conjunct1])
  have t4: "snd ?B ''out/doc.mp4'' = Some (File [0, 0])"
    by (rule D [THEN conjunct2, THEN spec, THEN mp]) (simp add: ne nb)
  have fw: "files \<lparr>files = no_files, db_store = []\<rparr> = no_files" by simp
  have t5: "addDocument ?env (example_config 10 2) ''doc'' ''AB'' ''out/doc.mp4'' []
         \<lparr>files = no_files, db_store = []\<rparr>
       = Some (Inl (Error (''FFmpeg error: '' @ ''Conversion failed!'')),
               \<lparr>files = no_files, db_store = []\<rparr>\<lparr>files := snd ?B\<rparr>)"
    by (rule T5 [rule_format, OF conjI [OF fw conjI [OF ch conjI [OF pc t3]]]])
  from t1 t2 t3 t4 t5 show ?thesis
    by (simp add: example_tempDir)
qed



section \<open>C9: embedding dimensions are checked only when searching\<close>

lemma cosineSimilarity_Inl:
  "length q \<noteq> length v \<Longrightarrow> cosineSimilarity q v = Inl (Error ''Vectors must have same length'')"
  by (simp add: cosineSimilarity_def)

lemma cosineSimilarity_Inr:
  "length q = length v \<Longrightarrow> \<exists>x. cosineSimilarity q v = Inr x"
  by (simp add: cosineSimilarity_def Let_def split: prod.splits)

lemma score_all_mismatch:
  "e \<in> set entries \<Longrightarrow> length (embedding e) \<noteq> length q \<Longrightarrow>
   score_all q entries = Inl (Error ''Vectors must have same length'')"
proof (induction entries)
  case Nil
  then show ?case by simp
next
  case (Cons entry rest)
  show ?case
  proof (cases "length q = length (embedding entry)")
    case False
    then show ?thesis by (simp add: cosineSimilarity_Inl)
  next
    case True
    with Cons.prems have "e \<in> set rest" by auto
    with Cons have "score_all q rest = Inl (Error ''Vectors must have same length'')" by simp
    moreover from True obtain x where "cosineSimilarity q (embedding entry) = Inr x"
      using cosineSimilarity_Inr by blast
    ultimately show ?thesis by simp
  qed
qed

lemma score_all_uniform:
  "\<forall>e \<in> set entries. length (embedding e) = length q \<Longrightarrow> \<exists>scored. score_all q entries = Inr scored"
proof (induction entries)
  case Nil
  show ?case by simp
next
  case (Cons entry rest)
  then obtain scored where "score_all q rest = Inr scored" by auto
  moreover from Cons.prems obtain x where "cosineSimilarity q (embedding entry) = Inr x"
    using cosineSimilarity_Inr [of q "embedding entry"] by auto
  ultimately show ?case by simp
qed

text \<open>
  Claim C9. The in-memory adapter's \<open>upsert\<close> appends whatever entries it is given. If the
  store then holds at least one entry whose embedding length differs from the query's,
  \<open>search\<close> throws \<open>Vectors must have same length\<close>, whatever the limit; if every stored
  embedding has the query's length, it returns results.
\<close>

theorem search_mem_dimension_mismatch:
  "((\<exists>e \<in> set entries0 \<union> set entries. length (embedding e) \<noteq> length q)
      \<longrightarrow> search_mem (upsert entries0 entries) q limit = Inl (Error ''Vectors must have same length''))
   \<and> ((\<forall>e \<in> set entries0 \<union> set entries. length (embedding e) = length q)
      \<longrightarrow> (\<exists>results. search_mem (upsert entries0 entries) q limit = Inr results))"
proof (intro conjI impI)
  assume "\<exists>e \<in> set entries0 \<union> set entries. length (embedding e) \<noteq> length q"
  then obtain e where e: "e \<in> set (entries0 @ entries)" "length (embedding e) \<noteq> length q"
    by auto
  then have "entries0 @ entries \<noteq> []" by auto
  with score_all_mismatch [OF e]
  show "search_mem (upsert entries0 entries) q limit = Inl (Error ''Vectors must have same length'')"
    by (simp add: search_mem_def upsert_def)
next
  assume "\<forall>e \<in> set entries0 \<union> set entries. length (embedding e) = length q"
  then have "\<forall>e \<in> set (entries0 @ entries). length (embedding e) = length q" by auto
  from score_all_uniform [OF this] obtain scored where "score_all q (entries0 @ entries) = Inr scored"
    by blast
  then show "\<exists>results. search_mem (upsert entries0 entries) q limit = Inr results"
    by (simp add: search_mem_def upsert_def)
qed

theorem search_mem_dimension_mismatch_witness:
  "search_mem (upsert [example_entry 0 [1, 1]] [example_entry 1 [1, 2, 3]]) [1, 0] 5
     = Inl (Error ''Vectors must have same length'')
   \<and> (\<exists>results. search_mem (upsert [example_entry 0 [1, 1]] [example_entry 1 [0, 1]]) [1, 0] 5
                   = Inr results)"
  using search_mem_dimension_mismatch
      [of "[example_entry 0 [1, 1]]" "[example_entry 1 [1, 2, 3]]" "[1, 0]" 5]
    search_mem_dimension_mismatch
      [of "[example_entry 0 [1, 1]]" "[example_entry 1 [0, 1]]" "[1, 0]" 5]
  by (simp add: example_entry_def)



section \<open>Properties of the retriever's search\<close>

lemma extract_missing:
  "fsys videoPath = None \<Longrightarrow>
   extractFrameAsBuffer env fsys videoPath n r
     = (Inl (Error (''Video file not found: '' @ videoPath)), r)"
  by (simp add: extractFrameAsBuffer_def)

lemma search_loop_missing_video:
  assumes "fsys videoPath = None"
  shows "search_loop env fsys videoPath hits r results =
           (if \<forall>h \<in> set hits. truthy (map_of (frameCache r) (cacheKey_of videoPath (frameNumber h)))
            then Inr (results @ map (\<lambda>h. mk_result h
                        (the (map_of (frameCache r) (cacheKey_of videoPath (frameNumber h))))) hits)
            else Inl (Error (''Video file not found: '' @ videoPath)),
            r)"
proof (induction hits arbitrary: results)
  case Nil
  show ?case by simp
next
  case (Cons h rest)
  show ?case
  proof (cases "truthy (map_of (frameCache r) (cacheKey_of videoPath (frameNumber h)))")
    case True
    then show ?thesis by (simp add: Cons.IH Let_def)
  next
    case False
    then show ?thesis using assms by (simp add: Let_def extract_missing)
  qed
qed

lemma retrieveChunks_ok:
  "embed env query = Inr emb \<Longrightarrow> db_search env emb k = Inr hits \<Longrightarrow>
   retrieveChunks env query k r = (Inr hits, r\<lparr>calls := calls r @ [Embed query, DbSearch emb k]\<rparr>)"
  by (simp add: retrieveChunks_def logged_def Let_def)

lemma retrieveChunks_embed_fails:
  "embed env query = Inl e \<Longrightarrow>
   retrieveChunks env query k r = (Inl e, r\<lparr>calls := calls r @ [Embed query]\<rparr>)"
  by (simp add: retrieveChunks_def logged_def Let_def)

lemma retrieveChunks_db_fails:
  "embed env query = Inr emb \<Longrightarrow> db_search env emb k = Inl e \<Longrightarrow>
   retrieveChunks env query k r = (Inl e, r\<lparr>calls := calls r @ [Embed query, DbSearch emb k]\<rparr>)"
  by (simp add: retrieveChunks_def logged_def Let_def)

lemma logged_calls [simp]:
  "calls (logged c r) = calls r @ [c]" "frameCache (logged c r) = frameCache r"
  "maxCacheSize (logged c r) = maxCacheSize r"
  by (simp_all add: logged_def)

lemma addToCache_calls [simp]:
  "calls (addToCache k v r) = calls r" "maxCacheSize (addToCache k v r) = maxCacheSize r"
  by (simp_all add: addToCache_def Let_def)

lemma extract_existing:
  "fsys videoPath = Some nd \<Longrightarrow>
   extractFrameAsBuffer env fsys videoPath n r
     = (Inr (case ffmpeg_frame env nd n of None \<Rightarrow> None
             | Some buf \<Rightarrow> if buf = [] then None else Some buf),
        logged (Ffmpeg videoPath n) r)"
  by (simp add: extractFrameAsBuffer_def Let_def split: option.splits)





section \<open>C6: searching a video that does not exist\<close>

text \<open>
  Claim C6 as stated fails: on a missing video and an index without hits, \<open>search\<close> embeds
  the query, searches the index and returns the empty result list; no error is raised.
\<close>

theorem search_missing_video_counterexample:
  "fst (search example_env no_files ''q'' ''missing.mp4'' None (new_QRVideoStoreRetriever None))
     = Inr []
   \<and> calls (snd (search example_env no_files ''q'' ''missing.mp4'' None
                    (new_QRVideoStoreRetriever None)))
     = [Embed ''q'', DbSearch [1, 1] 5]"
  by (simp add: search_def retrieveChunks_def logged_def Let_def nullish_def example_env_def
      new_QRVideoStoreRetriever_def)

text \<open>
  Claim C6, amended. When the MP4 at \<open>video_path\<close> does not exist, \<open>search\<close> first embeds
  the query and searches the index (an error of either is the error of \<open>search\<close>). It then
  raises the video-not-found error exactly when some hit has no non-empty cache entry, and
  otherwise returns every hit with its cached text. In all cases the only calls made to
  collaborators are the embedding and the index search: the video tool and the QR reader
  are never invoked, and the retriever's cache is unchanged.
\<close>

theorem search_missing_video:
  assumes "fsys videoPath = None"
  shows "(\<forall>e. embed env query = Inl e \<longrightarrow>
            search env fsys query videoPath matchCount r
              = (Inl e, r\<lparr>calls := calls r @ [Embed query]\<rparr>))
       \<and> (\<forall>emb e. embed env query = Inr emb \<and> db_search env emb (nullish matchCount 5) = Inl e \<longrightarrow>
            search env fsys query videoPath matchCount r
              = (Inl e, r\<lparr>calls := calls r @ [Embed query, DbSearch emb (nullish matchCount 5)]\<rparr>))
       \<and> (\<forall>emb hits. embed env query = Inr emb \<and> db_search env emb (nullish matchCount 5) = Inr hits \<longrightarrow>
            search env fsys query videoPath matchCount r
              = (if \<forall>h \<in> set hits. truthy (map_of (frameCache r) (cacheKey_of videoPath (frameNumber h)))
                 then Inr (map (\<lambda>h. mk_result h
                        (the (map_of (frameCache r) (cacheKey_of videoPath (frameNumber h))))) hits)
                 else Inl (Error (''Video file not found: '' @ videoPath)),
                 r\<lparr>calls := calls r @ [Embed query, DbSearch emb (nullish matchCount 5)]\<rparr>))"
proof (intro conjI allI impI)
  fix e assume "embed env query = Inl e"
  then show "search env fsys query videoPath matchCount r
              = (Inl e, r\<lparr>calls := calls r @ [Embed query]\<rparr>)"
    by (simp add: search_def retrieveChunks_embed_fails)
next
  fix emb e
  assume "embed env query = Inr emb \<and> db_search env emb (nullish matchCount 5) = Inl e"
  then show "search env fsys query videoPath matchCount r
              = (Inl e, r\<lparr>calls := calls r @ [Embed query, DbSearch emb (nullish matchCount 5)]\<rparr>)"
    by (simp add: search_def retrieveChunks_db_fails)
next
  fix emb hits
  assume "embed env query = Inr emb \<and> db_search env emb (nullish matchCount 5) = Inr hits"
  then show "search env fsys query videoPath matchCount r
              = (if \<forall>h \<in> set hits. truthy (map_of (frameCache r) (cacheKey_of videoPath (frameNumber h)))
                 then Inr (map (\<lambda>h. mk_result h
                        (the (map_of (frameCache r) (cacheKey_of videoPath (frameNumber h))))) hits)
                 else Inl (Error (''Video file not found: '' @ videoPath)),
                 r\<lparr>calls := calls r @ [Embed query, DbSearch emb (nullish matchCount 5)]\<rparr>)"
    using assms by (simp add: search_def retrieveChunks_ok search_loop_missing_video)
qed

theorem search_missing_video_witness:
  "search example_env_frames no_files ''q'' ''v.mp4'' None (new_QRVideoStoreRetriever None)
   = (Inl (Error ''Video file not found: v.mp4''),
      (new_QRVideoStoreRetriever None)\<lparr>calls := [Embed ''q'', DbSearch [1, 1] 5]\<rparr>)"
proof -
  have missing: "no_files ''v.mp4'' = None"
    by (simp add: no_files_def)
  have e: "embed example_env_frames ''q'' = Inr [1, 1]"
    by (simp add: example_env_frames_def example_env_def)
  have d: "db_search example_env_frames [1, 1] (nullish None 5)
           = Inr [example_entry 0 [1, 1], example_entry 7 [1, 1], example_entry 1 [1, 1]]"
    by (simp add: example_env_frames_def example_env_def)
  note T = search_missing_video [of no_files "''v.mp4''" example_env_frames "''q''" None
      "new_QRVideoStoreRetriever None", OF missing]
  from T [THEN conjunct2, THEN conjunct2, THEN spec, THEN spec, THEN mp, OF conjI [OF e d]]
  show ?thesis
    by (auto simp: new_QRVideoStoreRetriever_def nullish_def truthy_def)
qed



section \<open>One iteration of the search loop, case by case\<close>


lemma step_cached:
  "truthy (map_of (frameCache r) (cacheKey_of videoPath (frameNumber h))) \<Longrightarrow>
   search_loop env fsys videoPath (h # rest) r results
     = search_loop env fsys videoPath rest r
         (results @ [mk_result h (the (map_of (frameCache r) (cacheKey_of videoPath (frameNumber h))))])"
  by (simp add: Let_def)

lemma step_missing:
  "\<not> truthy (map_of (frameCache r) (cacheKey_of videoPath (frameNumber h))) \<Longrightarrow>
   fsys videoPath = None \<Longrightarrow>
   search_loop env fsys videoPath (h # rest) r results
     = (Inl (Error (''Video file not found: '' @ videoPath)), r)"
  by (simp add: Let_def extract_missing)

lemma step_no_frame:
  "\<not> truthy (map_of (frameCache r) (cacheKey_of videoPath (frameNumber h))) \<Longrightarrow>
   fsys videoPath = Some nd \<Longrightarrow>
   ffmpeg_frame env nd (frameNumber h) = None \<or> ffmpeg_frame env nd (frameNumber h) = Some [] \<Longrightarrow>
   search_loop env fsys videoPath (h # rest) r results
     = search_loop env fsys videoPath rest (logged (Ffmpeg videoPath (frameNumber h)) r) results"
  by (auto simp: Let_def extract_existing)

lemma step_undecoded:
  "\<not> truthy (map_of (frameCache r) (cacheKey_of videoPath (frameNumber h))) \<Longrightarrow>
   fsys videoPath = Some nd \<Longrightarrow> ffmpeg_frame env nd (frameNumber h) = Some buf \<Longrightarrow> buf \<noteq> [] \<Longrightarrow>
   \<not> truthy (qr_decode env buf) \<Longrightarrow>
   search_loop env fsys videoPath (h # rest) r results
     = search_loop env fsys videoPath rest
         (logged (QrDecode buf) (logged (Ffmpeg videoPath (frameNumber h)) r)) results"
  by (simp add: Let_def extract_existing decodeQrCodeFromBuffer_def)

lemma step_decoded:
  "\<not> truthy (map_of (frameCache r) (cacheKey_of videoPath (frameNumber h))) \<Longrightarrow>
   fsys videoPath = Some nd \<Longrightarrow> ffmpeg_frame env nd (frameNumber h) = Some buf \<Longrightarrow> buf \<noteq> [] \<Longrightarrow>
   truthy (qr_decode env buf) \<Longrightarrow>
   search_loop env fsys videoPath (h # rest) r results
     = search_loop env fsys videoPath rest
         (addToCache (cacheKey_of videoPath (frameNumber h)) (the (qr_decode env buf))
            (logged (QrDecode buf) (logged (Ffmpeg videoPath (frameNumber h)) r)))
         (results @ [mk_result h (the (qr_decode env buf))])"
  by (simp add: Let_def extract_existing decodeQrCodeFromBuffer_def)


lemma search_loop_calls_prefix:
  "\<exists>cs. calls (snd (search_loop env fsys videoPath hits r results)) = calls r @ cs"
proof (induction hits arbitrary: r results)
  case Nil
  show ?case by simp
next
  case (Cons h rest)
  note IH = Cons.IH
  let ?key = "cacheKey_of videoPath (frameNumber h)"
  let ?n = "frameNumber h"
  have grow: "\<exists>cs. calls (snd (search_loop env fsys videoPath rest X res)) = calls r @ cs"
    if "\<exists>cs. calls X = calls r @ cs" for X res
  proof -
    from that obtain cs where "calls X = calls r @ cs" by blast
    moreover from IH [of X res] obtain cs' where
      "calls (snd (search_loop env fsys videoPath rest X res)) = calls X @ cs'" by blast
    ultimately show ?thesis by simp
  qed
  show ?case
  proof (cases "truthy (map_of (frameCache r) ?key)")
    case True
    show ?thesis unfolding step_cached [OF True] by (rule grow) simp
  next
    case miss: False
    show ?thesis
    proof (cases "fsys videoPath")
      case None
      show ?thesis unfolding step_missing [where fsys = fsys, OF miss None] by simp
    next
      case (Some nd)
      show ?thesis
      proof (cases "ffmpeg_frame env nd ?n = None \<or> ffmpeg_frame env nd ?n = Some []")
        case True
        show ?thesis unfolding step_no_frame [where fsys = fsys, OF miss Some True] by (rule grow) simp
      next
        case False
        then obtain buf where buf: "ffmpeg_frame env nd ?n = Some buf" "buf \<noteq> []"
          by (cases "ffmpeg_frame env nd ?n") auto
        show ?thesis
        proof (cases "truthy (qr_decode env buf)")
          case True
          show ?thesis unfolding step_decoded [where fsys = fsys, OF miss Some buf True] by (rule grow) simp
        next
          case undecoded: False
          show ?thesis unfolding step_undecoded [where fsys = fsys, OF miss Some buf undecoded] by (rule grow) simp
        qed
      qed
    qed
  qed
qed

lemma getFrameByNumber_miss:
  assumes "fsys videoPath = Some nd" and "ffmpeg_frame env nd n = Some buf" and "buf \<noteq> []"
    and "\<not> truthy (map_of (frameCache r) (cacheKey_of videoPath n))"
  shows "getFrameByNumber env fsys videoPath n r =
           (Inr (qr_decode env buf),
            if truthy (qr_decode env buf)
            then addToCache (cacheKey_of videoPath n) (the (qr_decode env buf))
                   (logged (QrDecode buf) (logged (Ffmpeg videoPath n) r))
            else logged (QrDecode buf) (logged (Ffmpeg videoPath n) r))"
  using assms
  by (simp add: getFrameByNumber_def Let_def extract_existing decodeQrCodeFromBuffer_def)

lemma logged_twice:
  "logged b (logged a r) = r\<lparr>calls := calls r @ [a, b]\<rparr>"
  by (simp add: logged_def)

lemmas example_eval =
  example_env_frames_def example_env_def example_video_fs_def no_files_def example_entry_def
  new_QRVideoStoreRetriever_def nullish_def cacheKey_of_def toString.simps truthy_def
  extractFrameAsBuffer_def decodeQrCodeFromBuffer_def addToCache_def logged_def mk_result_def
  getFrameByNumber_def similarity_or_0_def Let_def



section \<open>C7: a frame that cannot be read is skipped\<close>



section \<open>C10: an empty payload counts as a failure, an empty cache entry as a miss\<close>

text \<open>
  Claim C10. Take a frame of an existing video that is extracted successfully. If its QR
  payload decodes to the empty string and the frame is not cached, \<open>search\<close> continues
  with the next hit from exactly the state it continues from when decoding fails (results
  and cache unchanged, the two calls logged), and \<open>getFrameByNumber\<close> returns the decoded
  value without caching it. If the cache holds the empty string for the frame, both
  operations extract and decode the frame again; only a non-empty cached text is a hit.
\<close>

theorem empty_payload_is_a_failure:
  assumes "fsys videoPath = Some nd" and "ffmpeg_frame env nd n = Some buf" and "buf \<noteq> []"
    and "frameNumber h = n"
  shows "((qr_decode env buf = Some [] \<or> qr_decode env buf = None)
           \<and> \<not> truthy (map_of (frameCache r) (cacheKey_of videoPath n))
          \<longrightarrow> search_loop env fsys videoPath (h # rest) r results
                = search_loop env fsys videoPath rest
                    (r\<lparr>calls := calls r @ [Ffmpeg videoPath n, QrDecode buf]\<rparr>) results
              \<and> getFrameByNumber env fsys videoPath n r
                = (Inr (qr_decode env buf), r\<lparr>calls := calls r @ [Ffmpeg videoPath n, QrDecode buf]\<rparr>))
       \<and> (map_of (frameCache r) (cacheKey_of videoPath n) = Some []
          \<longrightarrow> (\<exists>cs. calls (snd (search_loop env fsys videoPath (h # rest) r results))
                      = calls r @ Ffmpeg videoPath n # QrDecode buf # cs)
              \<and> (\<exists>cs. calls (snd (getFrameByNumber env fsys videoPath n r))
                      = calls r @ Ffmpeg videoPath n # QrDecode buf # cs))
       \<and> (\<forall>t. map_of (frameCache r) (cacheKey_of videoPath n) = Some t \<and> t \<noteq> []
          \<longrightarrow> search_loop env fsys videoPath (h # rest) r results
                = search_loop env fsys videoPath rest r (results @ [mk_result h t])
              \<and> getFrameByNumber env fsys videoPath n r = (Inr (Some t), r))"
proof (intro conjI allI impI)
  assume H: "(qr_decode env buf = Some [] \<or> qr_decode env buf = None)
             \<and> \<not> truthy (map_of (frameCache r) (cacheKey_of videoPath n))"
  then have und: "\<not> truthy (qr_decode env buf)"
    and miss: "\<not> truthy (map_of (frameCache r) (cacheKey_of videoPath (frameNumber h)))"
    using assms(4) by (auto simp: truthy_def)
  from step_undecoded [where fsys = fsys and env = env and rest = rest and results = results,
      OF miss assms(1) _ assms(3) und] assms(2,4)
  show "search_loop env fsys videoPath (h # rest) r results
        = search_loop env fsys videoPath rest
            (r\<lparr>calls := calls r @ [Ffmpeg videoPath n, QrDecode buf]\<rparr>) results"
    by (simp add: logged_twice)
  from getFrameByNumber_miss [where fsys = fsys, OF assms(1,2,3)] H und
  show "getFrameByNumber env fsys videoPath n r
        = (Inr (qr_decode env buf), r\<lparr>calls := calls r @ [Ffmpeg videoPath n, QrDecode buf]\<rparr>)"
    by (simp add: logged_twice)
next
  assume E: "map_of (frameCache r) (cacheKey_of videoPath n) = Some []"
  then have miss: "\<not> truthy (map_of (frameCache r) (cacheKey_of videoPath (frameNumber h)))"
    and miss': "\<not> truthy (map_of (frameCache r) (cacheKey_of videoPath n))"
    using assms(4) by (simp_all add: truthy_def)
  let ?r2 = "logged (QrDecode buf) (logged (Ffmpeg videoPath n) r)"
  have "\<exists>X res. search_loop env fsys videoPath (h # rest) r results
                 = search_loop env fsys videoPath rest X res
               \<and> calls X = calls r @ [Ffmpeg videoPath n, QrDecode buf]"
  proof (cases "truthy (qr_decode env buf)")
    case True
    from step_decoded [where fsys = fsys and env = env and rest = rest and results = results,
        OF miss assms(1) _ assms(3) True]
      assms(2,4)
    have "search_loop env fsys videoPath (h # rest) r results
          = search_loop env fsys videoPath rest
              (addToCache (cacheKey_of videoPath n) (the (qr_decode env buf)) ?r2)
              (results @ [mk_result h (the (qr_decode env buf))])"
      by simp
    moreover have "calls (addToCache (cacheKey_of videoPath n) (the (qr_decode env buf)) ?r2)
                   = calls r @ [Ffmpeg videoPath n, QrDecode buf]"
      by simp
    ultimately show ?thesis by blast
  next
    case False
    from step_undecoded [where fsys = fsys and env = env and rest = rest and results = results,
        OF miss assms(1) _ assms(3) False]
      assms(2,4)
    have "search_loop env fsys videoPath (h # rest) r results
          = search_loop env fsys videoPath rest ?r2 results"
      by simp
    moreover have "calls ?r2 = calls r @ [Ffmpeg videoPath n, QrDecode buf]"
      by simp
    ultimately show ?thesis by blast
  qed
  then obtain X res where X: "search_loop env fsys videoPath (h # rest) r results
                 = search_loop env fsys videoPath rest X res"
    and cX: "calls X = calls r @ [Ffmpeg videoPath n, QrDecode buf]"
    by blast
  from search_loop_calls_prefix [of env fsys videoPath rest X res] obtain cs where
    "calls (snd (search_loop env fsys videoPath rest X res)) = calls X @ cs" by blast
  with X cX have "calls (snd (search_loop env fsys videoPath (h # rest) r results))
                  = calls r @ Ffmpeg videoPath n # QrDecode buf # cs"
    by (simp del: search_loop.simps)
  then show "\<exists>cs. calls (snd (search_loop env fsys videoPath (h # rest) r results))
                = calls r @ Ffmpeg videoPath n # QrDecode buf # cs" ..
  from getFrameByNumber_miss [where fsys = fsys, OF assms(1,2,3) miss']
  have "calls (snd (getFrameByNumber env fsys videoPath n r))
        = calls r @ Ffmpeg videoPath n # QrDecode buf # []"
    by simp
  then show "\<exists>cs. calls (snd (getFrameByNumber env fsys videoPath n r))
                = calls r @ Ffmpeg videoPath n # QrDecode buf # cs" ..
next
  fix t
  assume C: "map_of (frameCache r) (cacheKey_of videoPath n) = Some t \<and> t \<noteq> []"
  then have hit: "truthy (map_of (frameCache r) (cacheKey_of videoPath (frameNumber h)))"
    using assms(4) by (simp add: truthy_def)
  from step_cached [where env = env and fsys = fsys and rest = rest and results = results, OF hit] C assms(4)
  show "search_loop env fsys videoPath (h # rest) r results
        = search_loop env fsys videoPath rest r (results @ [mk_result h t])"
    by simp
  from C show "getFrameByNumber env fsys videoPath n r = (Inr (Some t), r)"
    by (simp add: getFrameByNumber_def Let_def truthy_def)
qed

theorem empty_payload_is_a_failure_witness:
  "fst (search_loop example_env_frames example_video_fs ''v.mp4''
          [example_entry 2 [1, 1], example_entry 1 [1, 1]] (new_QRVideoStoreRetriever None) [])
     = Inr [mk_result (example_entry 1 [1, 1]) ''B'']
   \<and> getFrameByNumber example_env_frames example_video_fs ''v.mp4'' 2 (new_QRVideoStoreRetriever None)
     = (Inr (Some []),
        (new_QRVideoStoreRetriever None)\<lparr>calls := [Ffmpeg ''v.mp4'' 2, QrDecode [3]]\<rparr>)
   \<and> (\<exists>cs. calls (snd (getFrameByNumber example_env_frames example_video_fs ''v.mp4'' 2
                         ((new_QRVideoStoreRetriever None)\<lparr>frameCache := [(''v.mp4:2'', [])]\<rparr>)))
             = Ffmpeg ''v.mp4'' 2 # QrDecode [3] # cs)"
proof -
  let ?r0 = "new_QRVideoStoreRetriever None"
  let ?r1 = "?r0\<lparr>frameCache := [(''v.mp4:2'', [])]\<rparr>"
  have ex: "example_video_fs ''v.mp4'' = Some (File [9])"
    by (simp add: example_video_fs_def)
  have fr: "ffmpeg_frame example_env_frames (File [9]) 2 = Some [3]"
    by (simp add: example_eval)
  have ne: "[3::nat] \<noteq> []" by simp
  have fn: "frameNumber (example_entry 2 [1, 1]) = 2"
    by (simp add: example_entry_def)
  have dec: "qr_decode example_env_frames [3] = Some []"
    by (simp add: example_eval)
  have miss: "\<not> truthy (map_of (frameCache ?r0) (cacheKey_of ''v.mp4'' 2))"
    by (simp add: example_eval)
  have stored: "map_of (frameCache ?r1) (cacheKey_of ''v.mp4'' 2) = Some []"
    by (simp add: example_eval)
  note T0 = empty_payload_is_a_failure [where fsys = example_video_fs and videoPath = "''v.mp4''"
      and env = example_env_frames and h = "example_entry 2 [1, 1]"
      and rest = "[example_entry 1 [1, 1]]" and results = "[]" and r = ?r0, OF ex fr ne fn]
  note T1 = empty_payload_is_a_failure [where fsys = example_video_fs and videoPath = "''v.mp4''"
      and env = example_env_frames and h = "example_entry 2 [1, 1]"
      and rest = "[example_entry 1 [1, 1]]" and results = "[]" and r = ?r1, OF ex fr ne fn]
  note A = T0 [THEN conjunct1, THEN mp, OF conjI [OF disjI1 [OF dec] miss]]
  have a: "fst (search_loop example_env_frames example_video_fs ''v.mp4''
          [example_entry 2 [1, 1], example_entry 1 [1, 1]] ?r0 [])
     = Inr [mk_result (example_entry 1 [1, 1]) ''B'']"
    by (simp only: A [THEN conjunct1]) (simp add: example_eval)
  have b: "getFrameByNumber example_env_frames example_video_fs ''v.mp4'' 2 ?r0
     = (Inr (Some []), ?r0\<lparr>calls := [Ffmpeg ''v.mp4'' 2, QrDecode [3]]\<rparr>)"
    using A [THEN conjunct2] dec by (simp add: new_QRVideoStoreRetriever_def)
  from T1 [THEN conjunct2, THEN conjunct1, THEN mp, OF stored, THEN conjunct2]
  have c: "\<exists>cs. calls (snd (getFrameByNumber example_env_frames example_video_fs ''v.mp4'' 2 ?r1))
             = Ffmpeg ''v.mp4'' 2 # QrDecode [3] # cs"
    by (simp add: new_QRVideoStoreRetriever_def)
  from a b c show ?thesis by blast
qed

section \<open>C8: which entry the frame cache evicts\<close>

text \<open>
  Claim C8, evaluated on the code. A retriever of capacity 2 reads frame 0, frame 1, frame 0
  again (served from the cache, no call to the video tool) and then frame 4. The entry
  evicted on the last insertion is frame 0, the most recently used one, and frame 1, the
  least recently used one, stays: eviction follows insertion order, a cache hit does not
  count as a use. The default capacity is 50. With capacity 0 the cache holds one entry
  after the first insertion.
\<close>

theorem frameCache_eviction_is_not_lru:
  "fst (getFrameByNumber example_env_frames example_video_fs ''v.mp4'' 0
         (snd (getFrameByNumber example_env_frames example_video_fs ''v.mp4'' 1
           (snd (getFrameByNumber example_env_frames example_video_fs ''v.mp4'' 0
             (new_QRVideoStoreRetriever (Some 2)))))))
     = Inr (Some ''A'')
   \<and> calls (snd (getFrameByNumber example_env_frames example_video_fs ''v.mp4'' 0
         (snd (getFrameByNumber example_env_frames example_video_fs ''v.mp4'' 1
           (snd (getFrameByNumber example_env_frames example_video_fs ''v.mp4'' 0
             (new_QRVideoStoreRetriever (Some 2))))))))
     = [Ffmpeg ''v.mp4'' 0, QrDecode [1], Ffmpeg ''v.mp4'' 1, QrDecode [2]]
   \<and> frameCache (snd (getFrameByNumber example_env_frames example_video_fs ''v.mp4'' 4
       (snd (getFrameByNumber example_env_frames example_video_fs ''v.mp4'' 0
         (snd (getFrameByNumber example_env_frames example_video_fs ''v.mp4'' 1
           (snd (getFrameByNumber example_env_frames example_video_fs ''v.mp4'' 0
             (new_QRVideoStoreRetriever (Some 2))))))))))
     = [(''v.mp4:1'', ''B''), (''v.mp4:4'', ''E'')]
   \<and> maxCacheSize (new_QRVideoStoreRetriever None) = 50
   \<and> frameCache (snd (getFrameByNumber example_env_frames example_video_fs ''v.mp4'' 0
         (new_QRVideoStoreRetriever (Some 0))))
     = [(''v.mp4:0'', ''A'')]"
proof -
  let ?g = "getFrameByNumber example_env_frames example_video_fs ''v.mp4''"
  have s1: "snd (?g 0 (new_QRVideoStoreRetriever (Some 2)))
            = \<lparr>maxCacheSize = 2, frameCache = [(''v.mp4:0'', ''A'')],
               calls = [Ffmpeg ''v.mp4'' 0, QrDecode [1]]\<rparr>"
    by (simp add: example_eval)
  have s2: "snd (?g 1 \<lparr>maxCacheSize = 2, frameCache = [(''v.mp4:0'', ''A'')],
                        calls = [Ffmpeg ''v.mp4'' 0, QrDecode [1]]\<rparr>)
            = \<lparr>maxCacheSize = 2, frameCache = [(''v.mp4:0'', ''A''), (''v.mp4:1'', ''B'')],
               calls = [Ffmpeg ''v.mp4'' 0, QrDecode [1], Ffmpeg ''v.mp4'' 1, QrDecode [2]]\<rparr>"
    by (simp add: example_eval)
  have s3: "?g 0 \<lparr>maxCacheSize = 2, frameCache = [(''v.mp4:0'', ''A''), (''v.mp4:1'', ''B'')],
               calls = [Ffmpeg ''v.mp4'' 0, QrDecode [1], Ffmpeg ''v.mp4'' 1, QrDecode [2]]\<rparr>
            = (Inr (Some ''A''),
               \<lparr>maxCacheSize = 2, frameCache = [(''v.mp4:0'', ''A''), (''v.mp4:1'', ''B'')],
                calls = [Ffmpeg ''v.mp4'' 0, QrDecode [1], Ffmpeg ''v.mp4'' 1, QrDecode [2]]\<rparr>)"
    by (simp add: example_eval)
  have s4: "frameCache (snd (?g 4
               \<lparr>maxCacheSize = 2, frameCache = [(''v.mp4:0'', ''A''), (''v.mp4:1'', ''B'')],
                calls = [Ffmpeg ''v.mp4'' 0, QrDecode [1], Ffmpeg ''v.mp4'' 1, QrDecode [2]]\<rparr>))
            = [(''v.mp4:1'', ''B''), (''v.mp4:4'', ''E'')]"
    by (simp add: example_eval)
  have s5: "maxCacheSize (new_QRVideoStoreRetriever None) = 50"
    by (simp add: new_QRVideoStoreRetriever_def nullish_def)
  have s6: "frameCache (snd (?g 0 (new_QRVideoStoreRetriever (Some 0)))) = [(''v.mp4:0'', ''A'')]"
    by (simp add: example_eval)
  show ?thesis
    by (simp only: s1 s2 s3 s4 s5 s6 fst_conv snd_conv Retriever.simps simp_thms)
qed


end
